theory Spec2Isabelle
  imports Main "HOL-Library.Word"
begin

section \<open>Sparse matrices in DIAgonal storage (scipy/sparse/dia.py)\<close>

text \<open>
  The class \<^verbatim>\<open>dia_matrix\<close> keeps a matrix of shape \<open>(M, N)\<close> as an array
  \<^verbatim>\<open>diags\<close> of \<open>K\<close> diagonal offsets and a \<open>K \<times> L\<close> array \<^verbatim>\<open>data\<close>
  whose row \<open>i\<close> is the strip of diagonal \<open>diags[i]\<close>.  The methods are written
  against numpy, so the embedding starts with the fragment of numpy they use:
  arrays with a shape, Python slices (negative bounds count from the end, bounds
  past the end are clipped) and the two ufuncs \<^verbatim>\<open>multiply\<close> and \<^verbatim>\<open>add\<close>
  called with an output argument, which raise when the shapes do not broadcast.
  The element type of the data array is a type parameter \<open>'a\<close>: its \<open>0\<close>, \<open>+\<close> and
  \<open>*\<close> are the arithmetic of the array's dtype, so that at \<open>64 word\<close> (numpy's
  \<^verbatim>\<open>int64\<close>) sums and products wrap around as numpy's do, and at \<open>int\<close> they are
  exact.  A scalar operand has the element type of the data; conversion and
  promotion between dtypes are not modelled.  Offsets and indices are mathematical
  integers.
\<close>

subsection \<open>Errors\<close>

text \<open>Every \<^verbatim>\<open>raise\<close> of the source, and every exception numpy raises on the way,
  is a value: the exception class with its message.\<close>

datatype error = ValueError string | IndexError string

subsection \<open>numpy arrays\<close>

text \<open>An array is its shape and its elements in row-major order.  numpy keeps
  \<open>length nd_flat = prod_list nd_shape\<close> for every array it builds
  (\<open>wf_ndarray\<close>).\<close>

record 'a ndarray =
  nd_shape :: "nat list"
  nd_flat :: "'a list"

definition wf_ndarray :: "'a ndarray \<Rightarrow> bool" where
  "wf_ndarray a \<longleftrightarrow> length (nd_flat a) = prod_list (nd_shape a)"

definition ndim :: "'a ndarray \<Rightarrow> nat" where
  "ndim a = length (nd_shape a)"

text \<open>\<^verbatim>\<open>len(a)\<close> is \<^verbatim>\<open>a.shape[0]\<close>; the source calls it on arrays of rank 1 and 2
  only.\<close>

definition len :: "'a ndarray \<Rightarrow> nat" where
  "len a = nd_shape a ! 0"

definition array1 :: "'a list \<Rightarrow> 'a ndarray" where
  "array1 xs = \<lparr>nd_shape = [length xs], nd_flat = xs\<rparr>"

text \<open>A rank-2 array of \<open>L\<close> columns from its rows.\<close>

definition array2 :: "nat \<Rightarrow> 'a list list \<Rightarrow> 'a ndarray" where
  "array2 L rs = \<lparr>nd_shape = [length rs, L], nd_flat = concat rs\<rparr>"

definition zeros :: "nat list \<Rightarrow> 'a::zero ndarray" where
  "zeros s = \<lparr>nd_shape = s, nd_flat = replicate (prod_list s) 0\<rparr>"

definition atleast_1d :: "'a ndarray \<Rightarrow> 'a ndarray" where
  "atleast_1d a = (if ndim a = 0 then a\<lparr>nd_shape := [1]\<rparr> else a)"

definition atleast_2d :: "'a ndarray \<Rightarrow> 'a ndarray" where
  "atleast_2d a =
     (if ndim a = 0 then a\<lparr>nd_shape := [1, 1]\<rparr>
      else if ndim a = 1 then a\<lparr>nd_shape := 1 # nd_shape a\<rparr>
      else a)"

text \<open>\<^verbatim>\<open>s * a\<close> for a scalar \<open>s\<close>: elementwise in the arithmetic of the element
  type, the shape kept.\<close>

definition scalar_times :: "'a::times \<Rightarrow> 'a ndarray \<Rightarrow> 'a ndarray" where
  "scalar_times s a = a\<lparr>nd_flat := map (\<lambda>v. s * v) (nd_flat a)\<rparr>"

text \<open>\<^verbatim>\<open>unique\<close> returns the sorted distinct elements.\<close>

definition unique :: "int list \<Rightarrow> int list" where
  "unique xs = sort (remdups xs)"

text \<open>Iterating over a rank-2 array of shape \<open>(K, L)\<close> yields its \<open>K\<close> rows.\<close>

fun chunks :: "nat \<Rightarrow> nat \<Rightarrow> 'a list \<Rightarrow> 'a list list" where
  "chunks L 0 xs = []"
| "chunks L (Suc k) xs = take L xs # chunks L k (drop L xs)"

definition nd_rows :: "'a ndarray \<Rightarrow> 'a list list" where
  "nd_rows a = chunks (nd_shape a ! 1) (nd_shape a ! 0) (nd_flat a)"

text \<open>\<^verbatim>\<open>x.reshape(-1,1)\<close> and \<^verbatim>\<open>y.reshape(-1)\<close>: the dimension written -1 is the
  size of the array, the product of its shape.\<close>

definition reshape_column :: "'a ndarray \<Rightarrow> 'a ndarray" where
  "reshape_column a = \<lparr>nd_shape = [prod_list (nd_shape a), 1], nd_flat = nd_flat a\<rparr>"

definition reshape_flat :: "'a ndarray \<Rightarrow> 'a ndarray" where
  "reshape_flat a = \<lparr>nd_shape = [prod_list (nd_shape a)], nd_flat = nd_flat a\<rparr>"

subsection \<open>Python slices\<close>

text \<open>A slice bound \<open>i\<close> on a sequence of length \<open>n\<close>: a negative bound counts from
  the end and stops at 0, a bound past the end is clipped to \<open>n\<close>.  A slice whose
  stop is not after its start is empty.\<close>

definition slice_index :: "nat \<Rightarrow> int \<Rightarrow> nat" where
  "slice_index n i = (if i < 0 then nat (max 0 (int n + i)) else min n (nat i))"

definition py_slice :: "'a list \<Rightarrow> int \<Rightarrow> int \<Rightarrow> 'a list" where
  "py_slice xs a b =
     (let s = slice_index (length xs) a; e = slice_index (length xs) b
      in take (e - s) (drop s xs))"

text \<open>Writing \<open>new\<close> through the view \<^verbatim>\<open>xs[a:b]\<close>; \<open>new\<close> has the length of the
  view.\<close>

definition set_slice :: "'a list \<Rightarrow> int \<Rightarrow> int \<Rightarrow> 'a list \<Rightarrow> 'a list" where
  "set_slice xs a b new =
     (let s = slice_index (length xs) a
      in take s xs @ new @ drop (s + length new) xs)"

subsection \<open>ufuncs with an output argument\<close>

text \<open>
  \<^verbatim>\<open>multiply(a, b, out)\<close> and \<^verbatim>\<open>add(a, b, out)\<close> on rank-2 operands held as
  lists of rows.  Along the rows the inputs must broadcast to the shape of
  \<open>out\<close>: each input has as many rows as \<open>out\<close>, or one row.  Otherwise numpy
  raises \<^verbatim>\<open>ValueError\<close>.  In the source the first operand of \<^verbatim>\<open>multiply\<close> is
  a column (\<^verbatim>\<open>reshape(-1,1)\<close>), held here as the list of its entries and
  broadcast across the columns of \<open>b\<close>; the column counts always agree.
\<close>

definition broadcasts :: "nat \<Rightarrow> nat \<Rightarrow> nat \<Rightarrow> bool" where
  "broadcasts la lb lo \<longleftrightarrow> (la = lo \<or> la = 1) \<and> (lb = lo \<or> lb = 1)"

definition brow :: "'a list \<Rightarrow> nat \<Rightarrow> 'a" where
  "brow xs r = (if length xs = 1 then xs ! 0 else xs ! r)"

definition multiply :: "'a::times list \<Rightarrow> 'a list list \<Rightarrow> 'a list list \<Rightarrow> error + 'a list list" where
  "multiply a b out =
     (if broadcasts (length a) (length b) (length out)
      then Inr (map (\<lambda>r. map (\<lambda>v. brow a r * v) (brow b r)) [0..<length out])
      else Inl (ValueError ''operands could not be broadcast together''))"

definition add :: "'a::plus list list \<Rightarrow> 'a list list \<Rightarrow> 'a list list \<Rightarrow> error + 'a list list" where
  "add a b out =
     (if broadcasts (length a) (length b) (length out)
      then Inr (map (\<lambda>r. map2 (+) (brow a r) (brow b r)) [0..<length out])
      else Inl (ValueError ''operands could not be broadcast together''))"

subsection \<open>The class and its constructor\<close>

text \<open>The shape is a pair of naturals: the setter of the base class, which is not
  part of this file, admits nothing else.\<close>

record 'a dia_matrix =
  data :: "'a ndarray"
  diags :: "int ndarray"
  shape :: "nat \<times> nat"

text \<open>
  The forms of \<^verbatim>\<open>arg1\<close> this file handles itself: another \<^verbatim>\<open>dia_matrix\<close>, a shape
  tuple, and a pair \<^verbatim>\<open>(data, diags)\<close>.  A general sparse or dense source goes
  through \<^verbatim>\<open>todia\<close> of other classes and is left out.  The \<^verbatim>\<open>copy\<close> flag
  decides whether buffers are shared; it changes no value and is not a parameter
  here.
\<close>

datatype 'a ctor_arg =
    FromDia "'a dia_matrix"
  | FromShape "nat \<times> nat"
  | FromDataDiags "'a ndarray" "int ndarray"

text \<open>Lines 102-115, the format check that ends every constructor path.  The third
  message is kept as its template; the two counts are not rendered.\<close>

definition check_format :: "'a dia_matrix \<Rightarrow> error + 'a dia_matrix" where
  "check_format self =
     (if ndim (diags self) \<noteq> 1 then
        Inl (ValueError ''diags array must have rank 1'')
      else if ndim (data self) \<noteq> 2 then
        Inl (ValueError ''data array must have rank 2'')
      else if nd_shape (data self) ! 0 \<noteq> len (diags self) then
        Inl (ValueError ''number of diagonals (%d) does not match the number of diags (%d)'')
      else if length (unique (nd_flat (diags self))) \<noteq> len (diags self) then
        Inl (ValueError ''offset array contains duplicate values'')
      else Inr self)"

text \<open>\<^verbatim>\<open>__init__\<close>, lines 52-99, followed by the format check.\<close>

definition dia_matrix_init ::
  "'a::zero ctor_arg \<Rightarrow> (nat \<times> nat) option \<Rightarrow> error + 'a dia_matrix" where
  "dia_matrix_init arg1 shp =
     (case arg1 of
        FromDia A \<Rightarrow> check_format \<lparr>data = data A, diags = diags A, shape = shape A\<rparr>
      | FromShape s \<Rightarrow> check_format \<lparr>data = zeros [0, 0], diags = zeros [0], shape = s\<rparr>
      | FromDataDiags d g \<Rightarrow>
          (case shp of
             None \<Rightarrow> Inl (ValueError ''expected a shape argument'')
           | Some s \<Rightarrow>
               check_format \<lparr>data = atleast_2d d, diags = atleast_1d g, shape = s\<rparr>))"

text \<open>The messages of the format check: the errors the specification calls
  \<^verbatim>\<open>MalformedStructure\<close>.\<close>

definition MalformedStructure :: "error set" where
  "MalformedStructure =
     {ValueError ''diags array must have rank 1'',
      ValueError ''data array must have rank 2'',
      ValueError ''number of diagonals (%d) does not match the number of diags (%d)'',
      ValueError ''offset array contains duplicate values''}"

text \<open>The error of \<^verbatim>\<open>matvec\<close> the specification calls \<^verbatim>\<open>DimensionMismatch\<close>.\<close>

definition DimensionMismatch :: error where
  "DimensionMismatch = ValueError ''dimension mismatch''"

text \<open>The structural invariants the format check enforces: offsets of rank 1, data
  of rank 2, one data row per offset, no offset twice.\<close>

definition structural_invariants :: "'a dia_matrix \<Rightarrow> bool" where
  "structural_invariants A \<longleftrightarrow>
     ndim (diags A) = 1 \<and> ndim (data A) = 2 \<and>
     nd_shape (data A) ! 0 = len (diags A) \<and>
     distinct (nd_flat (diags A))"

text \<open>An instance as the constructor leaves it: two numpy arrays that satisfy the
  structural invariants.\<close>

definition dia_ok :: "'a dia_matrix \<Rightarrow> bool" where
  "dia_ok A \<longleftrightarrow>
     wf_ndarray (data A) \<and> wf_ndarray (diags A) \<and> structural_invariants A"

subsection \<open>getnnz\<close>

definition getnnz :: "'a dia_matrix \<Rightarrow> int" where
  "getnnz self =
     (let (M, N) = shape self
      in fold (\<lambda>k nnz. if k > 0 then nnz + min (int M) (int N - k)
                        else nnz + min (int M + k) (int N))
              (nd_flat (diags self)) 0)"

text \<open>The length of diagonal \<open>k\<close> in an \<open>M \<times> N\<close> matrix as \<^verbatim>\<open>getnnz\<close> computes it.\<close>

definition ideal_length :: "nat \<Rightarrow> nat \<Rightarrow> int \<Rightarrow> int" where
  "ideal_length M N k = (if k > 0 then min (int M) (int N - k) else min (int M + k) (int N))"

subsection \<open>matvec\<close>

text \<open>
  The loop of lines 172-181 over \<^verbatim>\<open>zip(self.data, self.diags)\<close>, with \<open>y\<close> and
  \<open>temp\<close> as lists of rows: \<open>matvec_step\<close> is its body for one diagonal,
  \<open>matvec_loop\<close> runs it over the diagonals and stops at the first exception.
  \<^verbatim>\<open>multiply\<close> writes \<^verbatim>\<open>temp[i_start:i_end]\<close>, then \<^verbatim>\<open>add\<close> reads it and
  writes \<^verbatim>\<open>y[i_start:i_end]\<close>.
\<close>

definition matvec_step ::
  "nat \<Rightarrow> nat \<Rightarrow> nat \<Rightarrow> 'a::semiring_0 list list \<Rightarrow> 'a list \<times> int \<Rightarrow>
   'a list list \<times> 'a list list \<Rightarrow> error + 'a list list \<times> 'a list list" where
  "matvec_step M N L x dk yt =
     (let diag = fst dk; k = snd dk; y = fst yt; temp = snd yt;
          j_start = max 0 k;
          j_end = min (int M + k) (min (int N) (int L));
          i_start = max 0 (- k);
          i_end = i_start + (j_end - j_start)
      in case multiply (py_slice diag j_start j_end) (py_slice x j_start j_end)
                       (py_slice temp i_start i_end) of
           Inl e \<Rightarrow> Inl e
         | Inr t \<Rightarrow>
             (let temp' = set_slice temp i_start i_end t
              in case add (py_slice y i_start i_end) (py_slice temp' i_start i_end)
                          (py_slice y i_start i_end) of
                   Inl e \<Rightarrow> Inl e
                 | Inr s \<Rightarrow> Inr (set_slice y i_start i_end s, temp')))"

primrec matvec_loop ::
  "nat \<Rightarrow> nat \<Rightarrow> nat \<Rightarrow> 'a::semiring_0 list list \<Rightarrow> ('a list \<times> int) list \<Rightarrow>
   'a list list \<times> 'a list list \<Rightarrow> error + 'a list list" where
  "matvec_loop M N L x [] yt = Inr (fst yt)"
| "matvec_loop M N L x (dk # rest) yt =
     (case matvec_step M N L x dk yt of
        Inl e \<Rightarrow> Inl e
      | Inr yt' \<Rightarrow> matvec_loop M N L x rest yt')"

text \<open>
  \<^verbatim>\<open>matvec\<close>.  A rank-0 operand has no \<^verbatim>\<open>shape[0]\<close>.  For an operand of rank 3 or
  more the output of \<^verbatim>\<open>multiply\<close> has a lower rank than its inputs, so the first
  diagonal raises.  \<^verbatim>\<open>empty_like\<close> leaves the contents of \<open>temp\<close> unspecified;
  the loop writes every part of \<open>temp\<close> before reading it, and the model starts it
  from zeros.  \<^verbatim>\<open>asmatrix\<close> changes the class of the result and none of its
  values.
\<close>

definition matvec :: "'a::semiring_0 dia_matrix \<Rightarrow> 'a ndarray \<Rightarrow> error + 'a ndarray" where
  "matvec self other =
     (let x = (if ndim other = 1 then reshape_column other else other)
      in if ndim x = 0 then Inl (IndexError ''tuple index out of range'')
         else if snd (shape self) \<noteq> nd_shape x ! 0 then Inl (ValueError ''dimension mismatch'')
         else
           (let M = fst (shape self); N = snd (shape self);
                P = nd_shape x ! 1;
                L = nd_shape (data self) ! 1;
                y = replicate M (replicate P 0);
                temp = replicate M (replicate P 0);
                ds = zip (nd_rows (data self)) (nd_flat (diags self))
            in if ndim x > 2 then
                 (if ds = [] then Inr (zeros [M, P])
                  else Inl (ValueError ''operands could not be broadcast together''))
               else
                 (case matvec_loop M N L (nd_rows x) ds (y, temp) of
                    Inl e \<Rightarrow> Inl e
                  | Inr y' \<Rightarrow>
                      Inr (if ndim other = 1 then reshape_flat (array2 P y')
                           else array2 P y'))))"

subsection \<open>Multiplication\<close>

text \<open>
  \<^verbatim>\<open>__mul__\<close> (named \<open>mul\<close>) takes a scalar-like operand (a scalar, or an array
  of rank 0) or a dense array; a sparse operand goes to \<^verbatim>\<open>tocsr\<close> of other
  classes and is left out.  The product is a matrix of this class or a dense array.
\<close>

datatype 'a operand = Scalar 'a | Dense "'a ndarray"

datatype 'a product = DiaResult "'a dia_matrix" | ArrayResult "'a ndarray"

text \<open>Line 139, the scalar branch: the constructor on the scaled data, the same
  offsets and the same shape.\<close>

definition scale :: "'a::semiring_0 dia_matrix \<Rightarrow> 'a \<Rightarrow> error + 'a dia_matrix" where
  "scale self s =
     dia_matrix_init (FromDataDiags (scalar_times s (data self)) (diags self))
       (Some (shape self))"

text \<open>
  Modelled from the spec: \<^verbatim>\<open>self.dot\<close> belongs to the base class, which is not part
  of this file.  Section 4.3 has an operand that is not scalar-like treated as a
  dense vector or dense matrix and multiplied by the kernel, which is \<^verbatim>\<open>matvec\<close>
  (reached directly, or through \<^verbatim>\<open>matmat\<close>, line 154).  The operands of that
  contract have rank 1 or 2.
\<close>

definition dot :: "'a::semiring_0 dia_matrix \<Rightarrow> 'a ndarray \<Rightarrow> error + 'a ndarray" where
  "dot self other = matvec self other"

definition mul :: "'a::semiring_0 dia_matrix \<Rightarrow> 'a operand \<Rightarrow> error + 'a product" where
  "mul self other =
     (case other of
        Scalar s \<Rightarrow> map_sum id DiaResult (scale self s)
      | Dense x \<Rightarrow>
          (if ndim x = 0 then map_sum id DiaResult (scale self (nd_flat x ! 0))
           else map_sum id ArrayResult (dot self x)))"

text \<open>\<^verbatim>\<open>_with_data\<close> (named \<open>with_data\<close>): the copy of \<open>diags\<close> has the same
  value.\<close>

definition with_data ::
  "'a::zero dia_matrix \<Rightarrow> 'a ndarray \<Rightarrow> bool \<Rightarrow> error + 'a dia_matrix" where
  "with_data self d copy =
     (if copy then dia_matrix_init (FromDataDiags d (diags self)) (Some (shape self))
      else dia_matrix_init (FromDataDiags d (diags self)) (Some (shape self)))"

subsection \<open>tocoo\<close>

text \<open>What \<^verbatim>\<open>coo_matrix((data,(row,col)),shape=self.shape)\<close> is given.\<close>

record 'a coo_matrix =
  coo_data :: "'a list"
  coo_row :: "int list"
  coo_col :: "int list"
  coo_shape :: "nat \<times> nat"

text \<open>Lines 217-218: \<^verbatim>\<open>row[i,:] -= k\<close> for each \<open>(i, k)\<close> of
  \<^verbatim>\<open>enumerate(self.diags)\<close>; an index past the last row raises.\<close>

primrec shift_rows :: "(nat \<times> int) list \<Rightarrow> int list list \<Rightarrow> error + int list list" where
  "shift_rows [] row = Inr row"
| "shift_rows (ik # rest) row =
     (if fst ik < length row
      then shift_rows rest (row[fst ik := map (\<lambda>v. v - snd ik) (row ! fst ik)])
      else Inl (IndexError ''index out of bounds''))"

text \<open>\<^verbatim>\<open>a[mask]\<close> for a boolean mask of the shape of \<open>a\<close>: the selected elements
  in row-major order, as a rank-1 array.\<close>

definition mask_select :: "'a list list \<Rightarrow> bool list list \<Rightarrow> 'a list" where
  "mask_select a msk = concat (map2 (\<lambda>r m. map fst (filter snd (zip r m))) a msk)"

definition tocoo :: "'a dia_matrix \<Rightarrow> error + 'a coo_matrix" where
  "tocoo self =
     (let num_data = len (data self);
          len_data = nd_shape (data self) ! 1;
          row0 = replicate num_data (map int [0..<len_data]);
          col = row0
      in case shift_rows (enumerate 0 (nd_flat (diags self))) row0 of
           Inl e \<Rightarrow> Inl e
         | Inr row \<Rightarrow>
             (let msk = map2 (map2 (\<lambda>r c. r \<ge> 0 \<and> r < int (fst (shape self)) \<and>
                                            c < int (snd (shape self)))) row col
              in Inr \<lparr>coo_data = mask_select (nd_rows (data self)) msk,
                      coo_row = mask_select row msk,
                      coo_col = mask_select col msk,
                      coo_shape = shape self\<rparr>))"

text \<open>The entries of a coordinate matrix as \<open>(row, column, value)\<close> triples.\<close>

definition coo_entries :: "'a coo_matrix \<Rightarrow> (int \<times> int \<times> 'a) list" where
  "coo_entries C = zip (coo_row C) (zip (coo_col C) (coo_data C))"

subsection \<open>Dense matrices, for comparison\<close>

text \<open>A coordinate matrix read as a dense one: the entry at \<open>(r, c)\<close> is the sum of
  the values exported for that position.\<close>

definition coo_todense :: "'a::comm_monoid_add coo_matrix \<Rightarrow> nat \<Rightarrow> nat \<Rightarrow> 'a" where
  "coo_todense C r c =
     sum_list (map (\<lambda>e. if fst e = int r \<and> fst (snd e) = int c then snd (snd e) else 0)
                   (coo_entries C))"

text \<open>\<open>data[i][j]\<close> and \<open>diags[i]\<close>.\<close>

definition data_at :: "'a dia_matrix \<Rightarrow> nat \<Rightarrow> nat \<Rightarrow> 'a" where
  "data_at A i j = nd_rows (data A) ! i ! j"

definition offset :: "'a dia_matrix \<Rightarrow> nat \<Rightarrow> int" where
  "offset A i = nd_flat (diags A) ! i"

text \<open>
  Modelled from the spec: the dense matrix obtained by walking the diagonals
  (section 3, element mapping).  For each diagonal row \<open>i\<close> with offset \<open>k\<close> and
  each column \<open>j\<close> of the strip, \<open>data[i][j]\<close> stands at \<open>(j - k, j)\<close> when that
  position is inside the matrix.  The source has no dense walk of its own.
\<close>

definition dia_todense :: "'a::comm_monoid_add dia_matrix \<Rightarrow> nat \<Rightarrow> nat \<Rightarrow> 'a" where
  "dia_todense A r c =
     (\<Sum>i\<leftarrow>[0..<len (diags A)]. \<Sum>j\<leftarrow>[0..<nd_shape (data A) ! 1].
        if int j - offset A i = int r \<and> j = c \<and> r < fst (shape A) \<and> c < snd (shape A)
        then data_at A i j else 0)"

subsection \<open>The product, entry by entry\<close>

text \<open>Row \<open>r\<close> of the matrix meets the strip of a diagonal with offset \<open>k\<close> at
  column \<open>r + k\<close>, when that column exists in the operand and in the strip.\<close>

definition in_strip :: "nat \<Rightarrow> nat \<Rightarrow> nat \<Rightarrow> int \<Rightarrow> bool" where
  "in_strip N L r k \<longleftrightarrow> 0 \<le> int r + k \<and> int r + k < int N \<and> int r + k < int L"

text \<open>What one diagonal adds to row \<open>r\<close> of the output.\<close>

definition row_update ::
  "nat \<Rightarrow> nat \<Rightarrow> 'a::semiring_0 list list \<Rightarrow> nat \<Rightarrow> 'a list \<times> int \<Rightarrow> 'a list \<Rightarrow> 'a list" where
  "row_update N L x r dk row =
     (if in_strip N L r (snd dk)
      then map2 (+) row (map (\<lambda>v. fst dk ! nat (int r + snd dk) * v) (x ! nat (int r + snd dk)))
      else row)"

text \<open>Entry \<open>(r, p)\<close> of the product, accumulated diagonal by diagonal.\<close>

definition product_entry ::
  "'a::semiring_0 dia_matrix \<Rightarrow> 'a list list \<Rightarrow> nat \<Rightarrow> nat \<Rightarrow> 'a" where
  "product_entry A x r p =
     (\<Sum>i\<leftarrow>[0..<len (diags A)].
        if in_strip (snd (shape A)) (nd_shape (data A) ! 1) r (offset A i)
        then data_at A i (nat (int r + offset A i)) * (x ! nat (int r + offset A i) ! p)
        else 0)"

subsection \<open>Live positions\<close>

text \<open>Position \<open>(i, c)\<close> of the data array is live when the mask of \<^verbatim>\<open>tocoo\<close>
  keeps it: the row \<open>c - diags[i]\<close> and the column \<open>c\<close> are inside the matrix.
  \<open>live_index\<close> lists the live positions in row-major order.\<close>

definition live :: "'a dia_matrix \<Rightarrow> nat \<Rightarrow> nat \<Rightarrow> bool" where
  "live A i c \<longleftrightarrow>
     0 \<le> int c - offset A i \<and> int c - offset A i < int (fst (shape A)) \<and>
     c < snd (shape A)"

definition live_index :: "'a dia_matrix \<Rightarrow> (nat \<times> nat) list" where
  "live_index A =
     filter (\<lambda>ic. live A (fst ic) (snd ic))
       (List.product [0..<len (diags A)] [0..<nd_shape (data A) ! 1])"

subsection \<open>Worked examples\<close>

text \<open>The matrix of the class docstring: three strips \<open>[1,2,3,4]\<close> on the diagonals
  \<open>0\<close>, \<open>-1\<close> and \<open>2\<close> of a \<open>4 \<times> 4\<close> matrix.\<close>

definition example :: "int dia_matrix" where
  "example =
     \<lparr>data = array2 4 [[1, 2, 3, 4], [1, 2, 3, 4], [1, 2, 3, 4]],
      diags = array1 [0, - 1, 2], shape = (4, 4)\<rparr>"

text \<open>A main diagonal stored as a strip of width 2 in a \<open>4 \<times> 4\<close> matrix.\<close>

definition truncated :: "int dia_matrix" where
  "truncated = \<lparr>data = array2 2 [[5, 6]], diags = array1 [0], shape = (4, 4)\<rparr>"

text \<open>A matrix of numpy's \<^verbatim>\<open>int64\<close>: the first stored value is \<open>2^62\<close>, and four times
  that is \<open>2^64\<close>, which wraps to 0.\<close>

definition int64_example :: "64 word dia_matrix" where
  "int64_example =
     \<lparr>data = array2 2 [[4611686018427387904, 3]], diags = array1 [0], shape = (2, 2)\<rparr>"

section \<open>Properties\<close>

subsection \<open>The constructor\<close>

lemma length_unique: "length (unique xs) = length (remdups xs)"
  by (simp add: unique_def)

lemma unique_length_iff_distinct: "length (unique xs) = length xs \<longleftrightarrow> distinct xs"
  by (simp add: length_unique length_remdups_eq remdups_id_iff_distinct)

lemma check_format_Inr:
  "check_format self = Inr B \<Longrightarrow>
     B = self \<and> ndim (diags self) = 1 \<and> ndim (data self) = 2 \<and>
     nd_shape (data self) ! 0 = len (diags self) \<and>
     length (unique (nd_flat (diags self))) = len (diags self)"
  by (auto simp: check_format_def split: if_splits)

lemma check_format_Inl:
  "check_format self = Inl e \<Longrightarrow> e \<in> MalformedStructure"
  by (auto simp: check_format_def MalformedStructure_def split: if_splits)

lemma wf_rank1_len: "wf_ndarray a \<Longrightarrow> ndim a = 1 \<Longrightarrow> len a = length (nd_flat a)"
  by (cases "nd_shape a") (auto simp: wf_ndarray_def ndim_def len_def)

lemma wf_rank0_flat: "wf_ndarray a \<Longrightarrow> ndim a = 0 \<Longrightarrow> length (nd_flat a) = 1"
  by (simp add: wf_ndarray_def ndim_def)

lemma wf_atleast_1d: "wf_ndarray a \<Longrightarrow> wf_ndarray (atleast_1d a)"
  by (auto simp: atleast_1d_def wf_ndarray_def ndim_def)

lemma nd_flat_atleast_1d [simp]: "nd_flat (atleast_1d a) = nd_flat a"
  by (simp add: atleast_1d_def)

lemma check_format_distinct:
  assumes "check_format self = Inr B" and "wf_ndarray (diags self)"
  shows "distinct (nd_flat (diags self))"
proof -
  from check_format_Inr [OF assms(1)]
  have "ndim (diags self) = 1"
    and "length (unique (nd_flat (diags self))) = len (diags self)" by simp_all
  with assms(2) show ?thesis
    by (simp add: wf_rank1_len unique_length_iff_distinct)
qed

lemma init_invariants:
  assumes "dia_matrix_init (FromDataDiags d g) (Some s) = Inr B" and "wf_ndarray g"
  shows "structural_invariants B \<and> shape B = s \<and> data B = atleast_2d d \<and> diags B = atleast_1d g"
proof -
  let ?self = "\<lparr>data = atleast_2d d, diags = atleast_1d g, shape = s\<rparr>"
  from assms(1) have c: "check_format ?self = Inr B"
    by (simp add: dia_matrix_init_def)
  have "wf_ndarray (diags ?self)" using assms(2) by (simp add: wf_atleast_1d)
  from check_format_Inr [OF c] check_format_distinct [OF c this]
  show ?thesis by (simp add: structural_invariants_def)
qed

lemma init_distinct:
  assumes "dia_matrix_init (FromDataDiags d g) (Some s) = Inr B" and "wf_ndarray g"
  shows "distinct (nd_flat g)"
proof -
  from init_invariants [OF assms]
  have "distinct (nd_flat (diags B))" and "diags B = atleast_1d g"
    by (auto simp: structural_invariants_def)
  then have "distinct (nd_flat (atleast_1d g))" by simp
  then show ?thesis by simp
qed

lemma init_duplicate_malformed:
  assumes "wf_ndarray g" and "\<not> distinct (nd_flat g)"
  shows "\<exists>e \<in> MalformedStructure. dia_matrix_init (FromDataDiags d g) (Some s) = Inl e"
proof (cases "dia_matrix_init (FromDataDiags d g) (Some s)")
  case (Inl e)
  then have "check_format \<lparr>data = atleast_2d d, diags = atleast_1d g, shape = s\<rparr> = Inl e"
    by (simp add: dia_matrix_init_def)
  from check_format_Inl [OF this] Inl show ?thesis by blast
next
  case (Inr B)
  from init_distinct [OF Inr assms(1)] assms(2) show ?thesis by simp
qed

text \<open>
  Claim C7.  A \<^verbatim>\<open>(data, diags)\<close> input whose offsets hold a value twice is never
  accepted: whatever the data and whether or not a shape is given, the constructor
  raises, and with a shape the exception is one of the format check
  (\<open>MalformedStructure\<close>).  No matrix comes back, so no duplicate is dropped
  silently.  Without a shape the constructor stops earlier, at
  \<^verbatim>\<open>expected a shape argument\<close>.
\<close>

theorem duplicate_offsets_rejected:
  assumes "wf_ndarray g" and "\<not> distinct (nd_flat g)"
  shows "(\<exists>e \<in> MalformedStructure. dia_matrix_init (FromDataDiags d g) (Some s) = Inl e) \<and>
         (\<forall>shp. \<exists>e. dia_matrix_init (FromDataDiags d g) shp = Inl e)"
proof -
  have "\<exists>e. dia_matrix_init (FromDataDiags d g) shp = Inl e" for shp
  proof (cases shp)
    case None
    then show ?thesis by (simp add: dia_matrix_init_def)
  next
    case (Some s')
    with init_duplicate_malformed [OF assms, of d s'] show ?thesis by blast
  qed
  with init_duplicate_malformed [OF assms, of d s] show ?thesis by blast
qed

theorem duplicate_offsets_rejected_witness:
  "wf_ndarray (array1 [0, 0 :: int]) \<and> \<not> distinct (nd_flat (array1 [0, 0 :: int])) \<and>
   dia_matrix_init (FromDataDiags (array2 1 [[1 :: int], [2]]) (array1 [0, 0])) (Some (4, 4))
     = Inl (ValueError ''offset array contains duplicate values'') \<and>
   ValueError ''offset array contains duplicate values'' \<in> MalformedStructure \<and>
   dia_matrix_init (FromDataDiags (array2 1 [[1 :: int], [2]]) (array1 [0, 0])) None
     = Inl (ValueError ''expected a shape argument'')"
proof -
  have w: "wf_ndarray (array1 [0, 0 :: int])" by (simp add: wf_ndarray_def array1_def)
  have d: "\<not> distinct (nd_flat (array1 [0, 0 :: int]))" by (simp add: array1_def)
  have e: "dia_matrix_init (FromDataDiags (array2 1 [[1 :: int], [2]]) (array1 [0, 0])) (Some (4, 4))
     = Inl (ValueError ''offset array contains duplicate values'')" by code_simp
  have n: "dia_matrix_init (FromDataDiags (array2 1 [[1 :: int], [2]]) (array1 [0, 0])) None
     = Inl (ValueError ''expected a shape argument'')" by code_simp
  from duplicate_offsets_rejected [OF w d, of "array2 1 [[1 :: int], [2]]" "(4, 4)"] w d e n
  show ?thesis by auto
qed

lemma check_format_ok: "dia_ok A \<Longrightarrow> check_format A = Inr A"
  by (auto simp: check_format_def dia_ok_def structural_invariants_def wf_rank1_len
      unique_length_iff_distinct)

lemma atleast_1d_rank1: "ndim a = 1 \<Longrightarrow> atleast_1d a = a"
  by (simp add: atleast_1d_def)

lemma atleast_2d_rank2: "ndim a = 2 \<Longrightarrow> atleast_2d a = a"
  by (simp add: atleast_2d_def)

lemma ndim_scalar_times [simp]: "ndim (scalar_times s a) = ndim a"
  by (simp add: ndim_def scalar_times_def)

lemma nd_shape_scalar_times [simp]: "nd_shape (scalar_times s a) = nd_shape a"
  by (simp add: scalar_times_def)

lemma nd_flat_scalar_times [simp]: "nd_flat (scalar_times s a) = map (\<lambda>v. s * v) (nd_flat a)"
  by (simp add: scalar_times_def)

lemma wf_scalar_times [simp]: "wf_ndarray (scalar_times s a) = wf_ndarray a"
  by (simp add: wf_ndarray_def)

lemma scalar_times_one [simp]: "scalar_times (1 :: 'a :: monoid_mult) a = a"
  by (simp add: scalar_times_def)

lemma dia_ok_scaled:
  "dia_ok A \<Longrightarrow> dia_ok \<lparr>data = scalar_times s (data A), diags = diags A, shape = shape A\<rparr>"
  by (simp add: dia_ok_def structural_invariants_def)

lemma scale_ok:
  assumes "dia_ok A"
  shows "scale A s = Inr \<lparr>data = scalar_times s (data A), diags = diags A, shape = shape A\<rparr>"
proof -
  have r: "ndim (diags A) = 1" "ndim (data A) = 2"
    using assms by (simp_all add: dia_ok_def structural_invariants_def)
  show ?thesis
    using check_format_ok [OF dia_ok_scaled [OF assms, of s]] r
    by (simp add: scale_def dia_matrix_init_def atleast_1d_rank1 atleast_2d_rank2)
qed

subsection \<open>The worked examples are instances\<close>

lemma dia_ok_example: "dia_ok example"
  by (simp add: example_def dia_ok_def structural_invariants_def wf_ndarray_def array2_def
      array1_def ndim_def len_def)

lemma dia_ok_int64_example: "dia_ok int64_example"
  by (simp add: int64_example_def dia_ok_def structural_invariants_def wf_ndarray_def array2_def
      array1_def ndim_def len_def)

subsection \<open>Scalar multiplication and reconstruction\<close>

text \<open>
  Claim C6.  For every instance \<open>A\<close> and every scalar \<open>s\<close> of its element type,
  \<^verbatim>\<open>A * s\<close> is a matrix whose data holds every stored value of \<open>A\<close> multiplied by
  \<open>s\<close>, in an array of the same shape, with the offsets and the shape of \<open>A\<close>; and
  \<^verbatim>\<open>A * 1\<close> is \<open>A\<close> itself.  The product is the one of the element type: exact
  at \<open>int\<close>, modulo \<open>2^64\<close> at \<open>64 word\<close>, where \<open>2^62\<close> times 4 is stored as 0.
\<close>

theorem scalar_multiplication:
  fixes A :: "'a::semiring_1 dia_matrix"
  assumes "dia_ok A"
  shows "(\<exists>B. mul A (Scalar s) = Inr (DiaResult B) \<and>
             nd_flat (data B) = map (\<lambda>v. s * v) (nd_flat (data A)) \<and>
             nd_shape (data B) = nd_shape (data A) \<and>
             diags B = diags A \<and> shape B = shape A) \<and>
         mul A (Scalar 1) = Inr (DiaResult A)"
  using scale_ok [OF assms] by (simp add: mul_def)

theorem scalar_multiplication_witness:
  "dia_ok example \<and>
   mul example (Scalar 3) = Inr (DiaResult
     \<lparr>data = array2 4 [[3, 6, 9, 12], [3, 6, 9, 12], [3, 6, 9, 12]],
      diags = array1 [0, - 1, 2], shape = (4, 4)\<rparr>) \<and>
   mul example (Scalar 1) = Inr (DiaResult example) \<and>
   dia_ok int64_example \<and>
   mul int64_example (Scalar 4) = Inr (DiaResult
     \<lparr>data = array2 2 [[0, 12]], diags = array1 [0], shape = (2, 2)\<rparr>) \<and>
   mul int64_example (Scalar 1) = Inr (DiaResult int64_example)"
proof -
  have e: "mul example (Scalar 3) = Inr (DiaResult
     \<lparr>data = array2 4 [[3, 6, 9, 12], [3, 6, 9, 12], [3, 6, 9, 12]],
      diags = array1 [0, - 1, 2], shape = (4, 4)\<rparr>)" by code_simp
  have w: "mul int64_example (Scalar 4) = Inr (DiaResult
     \<lparr>data = array2 2 [[0, 12]], diags = array1 [0], shape = (2, 2)\<rparr>)" by code_simp
  from scalar_multiplication [OF dia_ok_example, of 3]
    scalar_multiplication [OF dia_ok_int64_example, of 4]
    dia_ok_example dia_ok_int64_example e w
  show ?thesis by simp
qed

lemma with_data_init:
  "with_data A d cp = dia_matrix_init (FromDataDiags d (diags A)) (Some (shape A))"
  by (simp add: with_data_def)

text \<open>
  Claim C10.  A matrix that comes back from scalar multiplication or from
  \<^verbatim>\<open>_with_data\<close> has gone through the format check of the constructor: its
  offsets have rank 1, its data rank 2, the data has one row per offset, no offset
  occurs twice, and its shape is the shape of the matrix it was built from.  This
  holds for any \<open>A\<close> whose offsets are a numpy array, whatever data is handed to
  \<^verbatim>\<open>_with_data\<close>.
\<close>

theorem rebuilt_matrices_keep_invariants:
  assumes "wf_ndarray (diags A)"
  shows "(mul A (Scalar s) = Inr (DiaResult B) \<longrightarrow>
            structural_invariants B \<and> shape B = shape A) \<and>
         (with_data A d cp = Inr B \<longrightarrow>
            structural_invariants B \<and> shape B = shape A)"
proof (intro conjI impI)
  assume "mul A (Scalar s) = Inr (DiaResult B)"
  then have "scale A s = Inr B"
    by (cases "scale A s") (simp_all add: mul_def)
  then have "dia_matrix_init (FromDataDiags (scalar_times s (data A)) (diags A))
               (Some (shape A)) = Inr B"
    by (simp add: scale_def)
  from init_invariants [OF this assms]
  show "structural_invariants B" and "shape B = shape A" by simp_all
next
  assume "with_data A d cp = Inr B"
  then have "dia_matrix_init (FromDataDiags d (diags A)) (Some (shape A)) = Inr B"
    by (simp add: with_data_init)
  from init_invariants [OF this assms]
  show "structural_invariants B" and "shape B = shape A" by simp_all
qed

theorem rebuilt_matrices_keep_invariants_witness:
  "wf_ndarray (diags example) \<and>
   mul example (Scalar 2) = Inr (DiaResult
     \<lparr>data = array2 4 [[2, 4, 6, 8 :: int], [2, 4, 6, 8], [2, 4, 6, 8]],
      diags = array1 [0, - 1, 2], shape = (4, 4)\<rparr>) \<and>
   structural_invariants
     \<lparr>data = array2 4 [[2, 4, 6, 8 :: int], [2, 4, 6, 8], [2, 4, 6, 8]],
      diags = array1 [0, - 1, 2], shape = (4, 4)\<rparr> \<and>
   with_data example (array1 [7, 8, 9]) True = Inl
     (ValueError ''number of diagonals (%d) does not match the number of diags (%d)'') \<and>
   with_data example (array2 1 [[7 :: int], [8], [9]]) True = Inr
     \<lparr>data = array2 1 [[7 :: int], [8], [9]], diags = array1 [0, - 1, 2], shape = (4, 4)\<rparr> \<and>
   structural_invariants
     \<lparr>data = array2 1 [[7 :: int], [8], [9]], diags = array1 [0, - 1, 2], shape = (4, 4)\<rparr>"
proof -
  let ?B = "\<lparr>data = array2 4 [[2, 4, 6, 8 :: int], [2, 4, 6, 8], [2, 4, 6, 8]],
      diags = array1 [0, - 1, 2], shape = (4, 4)\<rparr>"
  let ?C = "\<lparr>data = array2 1 [[7 :: int], [8], [9]], diags = array1 [0, - 1, 2], shape = (4, 4)\<rparr>"
  have w: "wf_ndarray (diags example)"
    using dia_ok_example by (simp add: dia_ok_def)
  have m: "mul example (Scalar 2) = Inr (DiaResult ?B)" by code_simp
  have f: "with_data example (array1 [7, 8, 9]) True = Inl
     (ValueError ''number of diagonals (%d) does not match the number of diags (%d)'')"
    by code_simp
  have c: "with_data example (array2 1 [[7 :: int], [8], [9]]) True = Inr ?C" by code_simp
  from rebuilt_matrices_keep_invariants [OF w, of 2 ?B "array2 1 [[7 :: int], [8], [9]]" True] m
  have "structural_invariants ?B" by blast
  moreover
  from rebuilt_matrices_keep_invariants [OF w, of 2 ?C "array2 1 [[7 :: int], [8], [9]]" True] c
  have "structural_invariants ?C" by blast
  ultimately show ?thesis using w m f c by simp
qed

subsection \<open>getnnz\<close>

lemma fold_add_sum_list:
  "fold (\<lambda>k nnz. if P k then nnz + f k else nnz + g k) ks (a :: int) =
     a + (\<Sum>k\<leftarrow>ks. if P k then f k else g k)"
  by (induction ks arbitrary: a) simp_all

text \<open>The loop as a sum over the offsets, each term as the source computes it.\<close>

lemma getnnz_sum_list:
  "getnnz A =
     (\<Sum>k\<leftarrow>nd_flat (diags A).
        if k > 0 then min (int (fst (shape A))) (int (snd (shape A)) - k)
        else min (int (fst (shape A)) + k) (int (snd (shape A))))"
  by (simp add: getnnz_def case_prod_beta fold_add_sum_list)

text \<open>The count reads the shape and the offsets and nothing else.\<close>

lemma getnnz_ignores_data:
  "shape A = shape B \<Longrightarrow> diags A = diags B \<Longrightarrow> getnnz A = getnnz B"
  by (simp add: getnnz_def)

text \<open>No term is negative while every offset \<open>k\<close> has \<open>-M \<le> k \<le> N\<close>.\<close>

lemma getnnz_nonnegative_in_range:
  assumes "\<forall>k \<in> set (nd_flat (diags A)). - int (fst (shape A)) \<le> k \<and> k \<le> int (snd (shape A))"
  shows "0 \<le> getnnz A"
  unfolding getnnz_sum_list using assms by (intro sum_list_nonneg) auto

text \<open>
  Claim C5.  On a \<open>4 \<times> 4\<close> matrix with the offsets \<open>0\<close>, \<open>-1\<close> and \<open>2\<close>,
  \<^verbatim>\<open>getnnz\<close> is 9, whatever the data array \<open>d\<close> holds (zeros included): the
  diagonals contribute 4, 3 and 2.
\<close>

theorem getnnz_example:
  "getnnz \<lparr>data = d, diags = array1 [0, - 1, 2], shape = (4, 4)\<rparr> = 9 \<and>
   getnnz example = 9 \<and>
   getnnz \<lparr>data = zeros [3, 4], diags = array1 [0, - 1, 2], shape = (4, 4)\<rparr> = 9 \<and>
   getnnz \<lparr>data = d, diags = array1 [0], shape = (4, 4)\<rparr> = 4 \<and>
   getnnz \<lparr>data = d, diags = array1 [- 1], shape = (4, 4)\<rparr> = 3 \<and>
   getnnz \<lparr>data = d, diags = array1 [2], shape = (4, 4)\<rparr> = 2"
  by (simp add: getnnz_def array1_def example_def)

text \<open>
  Claim C3.  \<^verbatim>\<open>getnnz\<close> is the sum of the two minima (\<open>getnnz_sum_list\<close>), but the
  loop adds \<open>min(M, N - k)\<close> or \<open>min(M + k, N)\<close> as it is, with no floor at zero.
  A \<open>4 \<times> 4\<close> matrix with the single offset 5 is accepted by the constructor and
  has no entry inside the matrix (its export is empty), yet its count is \<open>-1\<close>.
\<close>

theorem getnnz_negative:
  "dia_matrix_init (FromDataDiags (array2 4 [[1, 2, 3, 4 :: int]]) (array1 [5])) (Some (4, 4))
     = Inr \<lparr>data = array2 4 [[1, 2, 3, 4 :: int]], diags = array1 [5], shape = (4, 4)\<rparr> \<and>
   getnnz \<lparr>data = array2 4 [[1, 2, 3, 4 :: int]], diags = array1 [5], shape = (4, 4)\<rparr> = - 1 \<and>
   tocoo \<lparr>data = array2 4 [[1, 2, 3, 4 :: int]], diags = array1 [5], shape = (4, 4)\<rparr>
     = Inr \<lparr>coo_data = [], coo_row = [], coo_col = [], coo_shape = (4, 4)\<rparr>"
  by code_simp

subsection \<open>Rows of a rank-2 array\<close>

lemma length_chunks [simp]: "length (chunks L K xs) = K"
  by (induction K arbitrary: xs) simp_all

lemma length_chunks_nth:
  "length xs = K * L \<Longrightarrow> i < K \<Longrightarrow> length (chunks L K xs ! i) = L"
proof (induction K arbitrary: xs i)
  case 0
  then show ?case by simp
next
  case (Suc K)
  show ?case
  proof (cases i)
    case 0
    with Suc.prems show ?thesis by simp
  next
    case (Suc j)
    with Suc.prems Suc.IH [of "drop L xs" j] show ?thesis by simp
  qed
qed

lemma wf_rank2_flat:
  "wf_ndarray a \<Longrightarrow> ndim a = 2 \<Longrightarrow> length (nd_flat a) = nd_shape a ! 0 * nd_shape a ! 1"
proof -
  assume w: "wf_ndarray a" and r: "ndim a = 2"
  from r obtain k l where "nd_shape a = [k, l]"
    by (cases "nd_shape a"; cases "tl (nd_shape a)") (auto simp: ndim_def)
  with w show ?thesis by (simp add: wf_ndarray_def)
qed

lemma length_nd_rows [simp]: "length (nd_rows a) = nd_shape a ! 0"
  by (simp add: nd_rows_def)

lemma length_nd_rows_nth:
  "wf_ndarray a \<Longrightarrow> ndim a = 2 \<Longrightarrow> i < nd_shape a ! 0 \<Longrightarrow>
   length (nd_rows a ! i) = nd_shape a ! 1"
  by (simp add: nd_rows_def length_chunks_nth wf_rank2_flat)

lemma nd_rows_lengths:
  assumes "wf_ndarray a" "ndim a = 2"
  shows "\<forall>r \<in> set (nd_rows a). length r = nd_shape a ! 1"
proof
  fix r assume "r \<in> set (nd_rows a)"
  then obtain i where "i < nd_shape a ! 0" "r = nd_rows a ! i"
    by (auto simp: in_set_conv_nth)
  with assms show "length r = nd_shape a ! 1" by (simp add: length_nd_rows_nth)
qed

subsection \<open>matvec\<close>

text \<open>
  Claim C8.  A dense operand of rank 1 or more whose leading dimension is not the
  column count of the matrix makes \<^verbatim>\<open>matvec\<close> raise \<^verbatim>\<open>dimension mismatch\<close>; the
  result is the exception alone.  \<^verbatim>\<open>__mul__\<close> passes a vector or matrix operand
  on to \<^verbatim>\<open>matvec\<close> and raises the same exception.
\<close>

theorem matvec_dimension_mismatch:
  assumes "ndim x \<noteq> 0" and "nd_shape x ! 0 \<noteq> snd (shape A)"
  shows "matvec A x = Inl DimensionMismatch \<and>
         (ndim x \<le> 2 \<longrightarrow> mul A (Dense x) = Inl DimensionMismatch)"
proof -
  have "matvec A x = Inl DimensionMismatch"
  proof (cases "ndim x = 1")
    case True
    then obtain n where "nd_shape x = [n]"
      by (cases "nd_shape x") (auto simp: ndim_def)
    with assms(2) show ?thesis
      by (simp add: matvec_def ndim_def reshape_column_def DimensionMismatch_def)
  next
    case False
    with assms show ?thesis
      by (auto simp: matvec_def DimensionMismatch_def)
  qed
  with assms(1) show ?thesis by (simp add: mul_def dot_def)
qed

theorem matvec_dimension_mismatch_witness:
  "ndim (array1 [1, 1, 1 :: int]) \<noteq> 0 \<and>
   nd_shape (array1 [1, 1, 1 :: int]) ! 0 \<noteq> snd (shape example) \<and>
   matvec example (array1 [1, 1, 1]) = Inl (ValueError ''dimension mismatch'') \<and>
   mul example (Dense (array1 [1, 1, 1])) = Inl (ValueError ''dimension mismatch'')"
proof -
  have a: "ndim (array1 [1, 1, 1 :: int]) \<noteq> 0" by (simp add: ndim_def array1_def)
  have b: "nd_shape (array1 [1, 1, 1 :: int]) ! 0 \<noteq> snd (shape example)"
    by (simp add: array1_def example_def)
  have c: "ndim (array1 [1, 1, 1 :: int]) \<le> 2" by (simp add: ndim_def array1_def)
  from matvec_dimension_mismatch [OF a b] a b c show ?thesis
    by (simp add: DimensionMismatch_def)
qed

subsection \<open>matvec on diagonals inside the strip\<close>

text \<open>
  When every offset \<open>k\<close> satisfies \<open>-M \<le> k \<le> min(N, L)\<close>, every slice of the loop
  has bounds in order and inside its array, the three operands of each ufunc call
  have the same number of rows, and the loop computes the product entry by entry.
\<close>

lemma slice_index_in_range: "0 \<le> i \<Longrightarrow> i \<le> int n \<Longrightarrow> slice_index n i = nat i"
  by (simp add: slice_index_def)

lemma py_slice_in_range:
  assumes "0 \<le> a" "a \<le> b" "b \<le> int (length xs)"
  shows "py_slice xs a b = take (nat b - nat a) (drop (nat a) xs)"
  using assms by (simp add: py_slice_def slice_index_in_range Let_def)

lemma length_py_slice_in_range:
  assumes "0 \<le> a" "a \<le> b" "b \<le> int (length xs)"
  shows "length (py_slice xs a b) = nat (b - a)"
  using assms by (simp add: py_slice_in_range)

lemma nth_py_slice_in_range:
  assumes "0 \<le> a" "a \<le> b" "b \<le> int (length xs)" "r < nat (b - a)"
  shows "py_slice xs a b ! r = xs ! (nat a + r)"
  using assms by (simp add: py_slice_in_range) 

lemma set_slice_in_range:
  assumes "0 \<le> a" "a \<le> int (length xs)"
  shows "set_slice xs a b new = take (nat a) xs @ new @ drop (nat a + length new) xs"
  using assms by (simp add: set_slice_def slice_index_in_range Let_def)

lemma length_set_slice_in_range:
  assumes "0 \<le> a" "a \<le> b" "b \<le> int (length xs)" "length new = nat (b - a)"
  shows "length (set_slice xs a b new) = length xs"
  using assms by (simp add: set_slice_in_range)

lemma py_slice_set_slice:
  assumes "0 \<le> a" "a \<le> b" "b \<le> int (length xs)" "length new = nat (b - a)"
  shows "py_slice (set_slice xs a b new) a b = new"
proof -
  have l: "length (set_slice xs a b new) = length xs"
    using assms by (rule length_set_slice_in_range)
  have "py_slice (set_slice xs a b new) a b =
          take (nat b - nat a) (drop (nat a) (set_slice xs a b new))"
    using assms l by (simp add: py_slice_in_range)
  also have "\<dots> = new"
    using assms by (simp add: set_slice_in_range) 
  finally show ?thesis .
qed

lemma nth_set_slice:
  assumes "0 \<le> a" "a \<le> b" "b \<le> int (length xs)" "length new = nat (b - a)"
    and "r < length xs"
  shows "set_slice xs a b new ! r =
           (if nat a \<le> r \<and> r < nat b then new ! (r - nat a) else xs ! r)"
  using assms by (auto simp: set_slice_in_range nth_append) 

lemma brow_nth: "r < length xs \<Longrightarrow> brow xs r = xs ! r"
  by (auto simp: brow_def)

lemma multiply_same_length:
  assumes "length a = n" "length b = n" "length out = n"
  shows "multiply a b out = Inr (map (\<lambda>r. map (\<lambda>v. a ! r * v) (b ! r)) [0..<n])"
  using assms by (simp add: multiply_def broadcasts_def brow_nth)

lemma add_same_length:
  assumes "length a = n" "length b = n" "length out = n"
  shows "add a b out = Inr (map (\<lambda>r. map2 (+) (a ! r) (b ! r)) [0..<n])"
  using assms by (simp add: add_def broadcasts_def brow_nth)


lemma matvec_step_in_range:
  assumes k: "- int M \<le> k" "k \<le> int N" "k \<le> int L"
    and len: "length diag = L" "length x = N" "length y = M" "length temp = M"
  shows "\<exists>temp'. matvec_step M N L x (diag, k) (y, temp) =
           Inr (map (\<lambda>r. if 0 \<le> int r + k \<and> int r + k < int N \<and> int r + k < int L
                         then map2 (+) (y ! r)
                                (map (\<lambda>v. diag ! nat (int r + k) * v) (x ! nat (int r + k)))
                         else y ! r) [0..<M], temp') \<and> length temp' = M"
proof -
  define j0 where "j0 = max 0 k"
  define j1 where "j1 = min (int M + k) (min (int N) (int L))"
  define i0 where "i0 = max 0 (- k)"
  define i1 where "i1 = i0 + (j1 - j0)"
  define n where "n = nat (j1 - j0)"
  have j: "0 \<le> j0" "j0 \<le> j1" "j1 \<le> int L" "j1 \<le> int N"
    using k by (auto simp: j0_def j1_def)
  have i: "0 \<le> i0" "i0 \<le> i1" "i1 \<le> int M"
    using k by (auto simp: j0_def j1_def i0_def i1_def)
  have ni: "nat (i1 - i0) = n" by (simp add: i1_def n_def)
  have shift: "j0 - i0 = k" by (auto simp: j0_def i0_def)
  have la: "length (py_slice diag j0 j1) = n"
    using j len by (simp add: length_py_slice_in_range n_def)
  have lb: "length (py_slice x j0 j1) = n"
    using j len by (simp add: length_py_slice_in_range n_def)
  have lo: "length (py_slice temp i0 i1) = n"
    using i len ni by (simp add: length_py_slice_in_range)
  have ly: "length (py_slice y i0 i1) = n"
    using i len ni by (simp add: length_py_slice_in_range)
  define t where "t = map (\<lambda>r. map (\<lambda>v. py_slice diag j0 j1 ! r * v) (py_slice x j0 j1 ! r)) [0..<n]"
  have lt: "length t = n" by (simp add: t_def)
  have mul: "multiply (py_slice diag j0 j1) (py_slice x j0 j1) (py_slice temp i0 i1) = Inr t"
    unfolding t_def
    by (rule multiply_same_length [OF la lb lo])
  define temp' where "temp' = set_slice temp i0 i1 t"
  have lt': "length temp' = M"
    unfolding temp'_def using i len lt
    by (simp add: length_set_slice_in_range ni)
  have rd: "py_slice temp' i0 i1 = t"
    unfolding temp'_def using i len lt by (simp add: py_slice_set_slice ni)
  define s where "s = map (\<lambda>r. map2 (+) (py_slice y i0 i1 ! r) (t ! r)) [0..<n]"
  have ls: "length s = n" by (simp add: s_def)
  have ad: "add (py_slice y i0 i1) (py_slice temp' i0 i1) (py_slice y i0 i1) = Inr s"
    unfolding s_def rd
    by (rule add_same_length [OF ly lt ly])
  have step: "matvec_step M N L x (diag, k) (y, temp) = Inr (set_slice y i0 i1 s, temp')"
    using mul ad
    by (simp add: matvec_step_def Let_def j0_def [symmetric] j1_def [symmetric]
        i0_def [symmetric] i1_def [symmetric] temp'_def [symmetric])
  have "set_slice y i0 i1 s =
          map (\<lambda>r. if 0 \<le> int r + k \<and> int r + k < int N \<and> int r + k < int L
                   then map2 (+) (y ! r)
                          (map (\<lambda>v. diag ! nat (int r + k) * v) (x ! nat (int r + k)))
                   else y ! r) [0..<M]"
  proof (rule nth_equalityI)
    show "length (set_slice y i0 i1 s) = length (map (\<lambda>r. if 0 \<le> int r + k \<and> int r + k < int N \<and> int r + k < int L
                   then map2 (+) (y ! r)
                          (map (\<lambda>v. diag ! nat (int r + k) * v) (x ! nat (int r + k)))
                   else y ! r) [0..<M])"
      using i len ls by (simp add: length_set_slice_in_range ni)
  next
    fix r
    assume "r < length (set_slice y i0 i1 s)"
    then have r: "r < M"
      using i len ls by (simp add: length_set_slice_in_range ni)
    have cond: "(nat i0 \<le> r \<and> r < nat i1) \<longleftrightarrow>
                (0 \<le> int r + k \<and> int r + k < int N \<and> int r + k < int L)"
      using r k by (auto simp: j0_def j1_def i0_def i1_def)
    have nth: "set_slice y i0 i1 s ! r =
                 (if nat i0 \<le> r \<and> r < nat i1 then s ! (r - nat i0) else y ! r)"
      using i len ls r by (simp add: nth_set_slice ni)
    show "set_slice y i0 i1 s ! r =
            map (\<lambda>r. if 0 \<le> int r + k \<and> int r + k < int N \<and> int r + k < int L
                   then map2 (+) (y ! r)
                          (map (\<lambda>v. diag ! nat (int r + k) * v) (x ! nat (int r + k)))
                   else y ! r) [0..<M] ! r"
    proof (cases "nat i0 \<le> r \<and> r < nat i1")
      case False
      with cond have nc: "\<not> (0 \<le> int r + k \<and> int r + k < int N \<and> int r + k < int L)"
        by blast
      from nth False have "set_slice y i0 i1 s ! r = y ! r" by simp
      with nc r show ?thesis by auto
    next
      case True
      with cond have c: "0 \<le> int r + k \<and> int r + k < int N \<and> int r + k < int L"
        by blast
      from True have q: "r - nat i0 < n" using i ni by linarith
      have idx: "nat j0 + (r - nat i0) = nat (int r + k)"
        using True i j shift by linarith
      have rs: "nat i0 + (r - nat i0) = r" using True by simp
      from nth True have "set_slice y i0 i1 s ! r = s ! (r - nat i0)" by simp
      also have "s ! (r - nat i0) =
          map2 (+) (py_slice y i0 i1 ! (r - nat i0)) (t ! (r - nat i0))"
        using q by (simp add: s_def)
      also have "py_slice y i0 i1 ! (r - nat i0) = y ! r"
        using q i len ni rs by (simp add: nth_py_slice_in_range)
      also have "t ! (r - nat i0) =
          map (\<lambda>v. diag ! nat (int r + k) * v) (x ! nat (int r + k))"
        using q j len idx by (simp add: t_def nth_py_slice_in_range n_def)
      finally show ?thesis using c r by auto
    qed
  qed
  with step lt' show ?thesis by simp
qed


lemma matvec_loop_in_range:
  assumes "\<forall>dk \<in> set ds. - int M \<le> snd dk \<and> snd dk \<le> int N \<and> snd dk \<le> int L \<and>
             length (fst dk) = L"
    and "length x = N" "length y = M" "length temp = M"
  shows "matvec_loop M N L x ds (y, temp) =
           Inr (map (\<lambda>r. fold (row_update N L x r) ds (y ! r)) [0..<M])"
  using assms
proof (induction ds arbitrary: y temp)
  case Nil
  then show ?case by (auto intro: nth_equalityI)
next
  case (Cons dk ds)
  obtain diag k where dk: "dk = (diag, k)" by (cases dk)
  let ?y1 = "map (\<lambda>r. if 0 \<le> int r + k \<and> int r + k < int N \<and> int r + k < int L
                         then map2 (+) (y ! r)
                                (map (\<lambda>v. diag ! nat (int r + k) * v) (x ! nat (int r + k)))
                         else y ! r) [0..<M]"
  from Cons.prems dk have "- int M \<le> k" "k \<le> int N" "k \<le> int L" "length diag = L"
    by simp_all
  from matvec_step_in_range [OF this Cons.prems(2,3,4)]
  obtain temp' where st: "matvec_step M N L x (diag, k) (y, temp) = Inr (?y1, temp')"
    and lt: "length temp' = M" by blast
  have "matvec_loop M N L x ds (?y1, temp') =
          Inr (map (\<lambda>r. fold (row_update N L x r) ds (?y1 ! r)) [0..<M])"
    using Cons.prems lt by (intro Cons.IH) simp_all
  moreover have "map (\<lambda>r. fold (row_update N L x r) ds (?y1 ! r)) [0..<M] =
                 map (\<lambda>r. fold (row_update N L x r) (dk # ds) (y ! r)) [0..<M]"
    by (rule map_cong) (auto simp: dk row_update_def in_strip_def)
  ultimately show ?case using st by (simp add: dk)
qed

lemma fold_row_update:
  assumes "\<forall>xr \<in> set x. length xr = P" and "length x = N" and "length row = P"
  shows "length (fold (row_update N L x r) ds row) = P \<and>
         (\<forall>p < P. fold (row_update N L x r) ds row ! p =
            row ! p + (\<Sum>dk\<leftarrow>ds. if in_strip N L r (snd dk)
                       then fst dk ! nat (int r + snd dk) * (x ! nat (int r + snd dk) ! p)
                       else 0))"
  using assms(3)
proof (induction ds arbitrary: row)
  case Nil
  then show ?case by simp
next
  case (Cons dk ds)
  let ?row = "row_update N L x r dk row"
  have l: "length ?row = P"
  proof (cases "in_strip N L r (snd dk)")
    case True
    then have "nat (int r + snd dk) < N" by (auto simp: in_strip_def)
    with assms(1,2) have "length (x ! nat (int r + snd dk)) = P" by simp
    with True Cons.prems show ?thesis by (simp add: row_update_def)
  next
    case False
    with Cons.prems show ?thesis by (simp add: row_update_def)
  qed
  have v: "?row ! p = row ! p + (if in_strip N L r (snd dk)
                       then fst dk ! nat (int r + snd dk) * (x ! nat (int r + snd dk) ! p)
                       else 0)" if "p < P" for p
  proof (cases "in_strip N L r (snd dk)")
    case True
    then have "nat (int r + snd dk) < N" by (auto simp: in_strip_def)
    with assms(1,2) have "length (x ! nat (int r + snd dk)) = P" by simp
    with True Cons.prems that show ?thesis by (simp add: row_update_def)
  next
    case False
    then show ?thesis by (simp add: row_update_def)
  qed
  from Cons.IH [OF l] v show ?case by (simp add: add.assoc)
qed


lemma matvec_rank2_in_range:
  assumes ok: "dia_ok A" and wx: "wf_ndarray x" and rx: "ndim x = 2"
    and nx: "nd_shape x ! 0 = snd (shape A)"
    and range: "\<forall>k \<in> set (nd_flat (diags A)).
        - int (fst (shape A)) \<le> k \<and> k \<le> int (snd (shape A)) \<and> k \<le> int (nd_shape (data A) ! 1)"
  shows "matvec A x =
           Inr (array2 (nd_shape x ! 1)
                  (map (\<lambda>r. map (product_entry A (nd_rows x) r) [0..<nd_shape x ! 1])
                     [0..<fst (shape A)]))"
proof -
  let ?M = "fst (shape A)" and ?N = "snd (shape A)"
  let ?L = "nd_shape (data A) ! 1" and ?P = "nd_shape x ! 1"
  let ?K = "len (diags A)"
  let ?ds = "zip (nd_rows (data A)) (nd_flat (diags A))"
  let ?xr = "nd_rows x"
  from ok have wd: "wf_ndarray (data A)" and wg: "wf_ndarray (diags A)"
    and r1: "ndim (diags A) = 1" and r2: "ndim (data A) = 2"
    and rows: "nd_shape (data A) ! 0 = ?K"
    by (simp_all add: dia_ok_def structural_invariants_def)
  have lk: "length (nd_flat (diags A)) = ?K"
    using wg r1 by (simp add: wf_rank1_len)
  have pre: "\<forall>dk \<in> set ?ds. - int ?M \<le> snd dk \<and> snd dk \<le> int ?N \<and> snd dk \<le> int ?L \<and>
             length (fst dk) = ?L"
  proof
    fix dk assume "dk \<in> set ?ds"
    then have "(fst dk, snd dk) \<in> set ?ds" by simp
    then have "fst dk \<in> set (nd_rows (data A))" and "snd dk \<in> set (nd_flat (diags A))"
      by (rule set_zip_leftD, rule set_zip_rightD)
    with range nd_rows_lengths [OF wd r2]
    show "- int ?M \<le> snd dk \<and> snd dk \<le> int ?N \<and> snd dk \<le> int ?L \<and> length (fst dk) = ?L"
      by blast
  qed
  have lx: "length ?xr = ?N" using nx by simp
  have loop: "matvec_loop ?M ?N ?L ?xr ?ds
                (replicate ?M (replicate ?P 0), replicate ?M (replicate ?P 0)) =
           Inr (map (\<lambda>r. fold (row_update ?N ?L ?xr r) ?ds (replicate ?M (replicate ?P 0) ! r))
                  [0..<?M])"
    by (rule matvec_loop_in_range [OF pre lx]) simp_all
  have row: "fold (row_update ?N ?L ?xr r) ?ds (replicate ?M (replicate ?P 0) ! r) =
               map (product_entry A ?xr r) [0..<?P]" if "r < ?M" for r
  proof -
    let ?row = "fold (row_update ?N ?L ?xr r) ?ds (replicate ?P 0)"
    note z = length_replicate [of ?P "0::'a"]
    from fold_row_update [OF nd_rows_lengths [OF wx rx] lx z, of ?L r ?ds]
    have fl: "length ?row = ?P"
      and fv: "\<And>p. p < ?P \<Longrightarrow> ?row ! p =
              replicate ?P 0 ! p +
              (\<Sum>dk\<leftarrow>?ds. if in_strip ?N ?L r (snd dk)
                       then fst dk ! nat (int r + snd dk) * (?xr ! nat (int r + snd dk) ! p)
                       else 0)"
      by blast+
    have "?ds = map (\<lambda>i. (nd_rows (data A) ! i, nd_flat (diags A) ! i)) [0..<?K]"
      using lk rows by (intro nth_equalityI) simp_all
    then have s: "(\<Sum>dk\<leftarrow>?ds. if in_strip ?N ?L r (snd dk)
                       then fst dk ! nat (int r + snd dk) * (?xr ! nat (int r + snd dk) ! p)
                       else 0) = product_entry A ?xr r p" for p
      by (simp add: product_entry_def comp_def data_at_def offset_def cong: if_cong)
    have "?row = map (product_entry A ?xr r) [0..<?P]"
    proof (rule nth_equalityI)
      show "length ?row = length (map (product_entry A ?xr r) [0..<?P])"
        using fl by simp
    next
      fix p assume "p < length ?row"
      with fl have p: "p < ?P" by simp
      from fv [OF p] p have "?row ! p = product_entry A ?xr r p"
        unfolding s by simp
      with p show "?row ! p = map (product_entry A ?xr r) [0..<?P] ! p" by simp
    qed
    with that show ?thesis by simp
  qed
  have "map (\<lambda>r. fold (row_update ?N ?L ?xr r) ?ds (replicate ?M (replicate ?P 0) ! r)) [0..<?M]
          = map (\<lambda>r. map (product_entry A ?xr r) [0..<?P]) [0..<?M]"
    by (rule map_cong [OF refl], rule row, simp)
  with loop have "matvec_loop ?M ?N ?L ?xr ?ds
                (replicate ?M (replicate ?P 0), replicate ?M (replicate ?P 0)) =
           Inr (map (\<lambda>r. map (product_entry A ?xr r) [0..<?P]) [0..<?M])"
    by simp
  then show ?thesis
    using rx nx by (simp add: matvec_def Let_def)
qed


lemma matvec_rank1:
  "ndim other = 1 \<Longrightarrow>
   matvec A other = map_sum id reshape_flat (matvec A (reshape_column other))"
  by (simp add: matvec_def Let_def ndim_def reshape_column_def split: sum.splits)

lemma chunks_singletons: "length xs = n \<Longrightarrow> chunks (Suc 0) n xs = map (\<lambda>v. [v]) xs"
proof (induction n arbitrary: xs)
  case 0
  then show ?case by simp
next
  case (Suc n)
  then obtain v vs where "xs = v # vs" by (cases xs) auto
  with Suc show ?case by simp
qed

lemma matvec_rank1_in_range:
  assumes ok: "dia_ok A" and wx: "wf_ndarray x" and rx: "ndim x = 1"
    and nx: "nd_shape x ! 0 = snd (shape A)"
    and range: "\<forall>k \<in> set (nd_flat (diags A)).
        - int (fst (shape A)) \<le> k \<and> k \<le> int (snd (shape A)) \<and> k \<le> int (nd_shape (data A) ! 1)"
  shows "matvec A x =
           Inr (array1 (map (\<lambda>r. product_entry A (map (\<lambda>v. [v]) (nd_flat x)) r 0)
                          [0..<fst (shape A)]))"
proof -
  let ?x = "reshape_column x"
  from rx obtain n where n: "nd_shape x = [n]"
    by (cases "nd_shape x") (auto simp: ndim_def)
  with wx have lf: "length (nd_flat x) = n" by (simp add: wf_ndarray_def)
  have wx': "wf_ndarray ?x" using n lf by (simp add: wf_ndarray_def reshape_column_def)
  have rx': "ndim ?x = 2" by (simp add: ndim_def reshape_column_def)
  have nx': "nd_shape ?x ! 0 = snd (shape A)" using n nx by (simp add: reshape_column_def)
  have p: "nd_shape ?x ! 1 = 1" by (simp add: reshape_column_def)
  have rows: "nd_rows ?x = map (\<lambda>v. [v]) (nd_flat x)"
    using n lf by (simp add: nd_rows_def reshape_column_def chunks_singletons)
  from matvec_rank2_in_range [OF ok wx' rx' nx' range] p rows
  have "matvec A ?x =
          Inr (array2 1 (map (\<lambda>r. [product_entry A (map (\<lambda>v. [v]) (nd_flat x)) r 0])
                           [0..<fst (shape A)]))"
    by simp
  then show ?thesis
    by (simp add: matvec_rank1 [OF rx] reshape_flat_def array2_def array1_def comp_def)
qed


text \<open>The worked example of the specification: the docstring matrix times the
  vector of ones.\<close>

lemma matvec_example:
  "matvec example (array1 [1, 1, 1, 1]) = Inr (array1 [4, 7, 5, 7])"
  by code_simp

text \<open>
  Claim C4.  For the \<open>4 \<times> 4\<close> matrix with the main diagonal stored as the strip
  \<open>[5, 6]\<close>, the export holds exactly \<open>(0,0) = 5\<close> and \<open>(1,1) = 6\<close>, and the product
  with any vector or two-column matrix has zero rows 2 and 3, although
  \<^verbatim>\<open>getnnz\<close> reports the ideal length 4.
\<close>

theorem truncated_strip:
  "tocoo truncated =
     Inr \<lparr>coo_data = [5, 6 :: int], coo_row = [0, 1], coo_col = [0, 1], coo_shape = (4, 4)\<rparr> \<and>
   matvec truncated (array1 [a, b, c, d]) = Inr (array1 [5 * a, 6 * b, 0, 0]) \<and>
   matvec truncated (array2 2 [[a, a' :: int], [b, b'], [c, c'], [d, d']])
     = Inr (array2 2 [[5 * a, 5 * a' :: int], [6 * b, 6 * b'], [0, 0], [0, 0]]) \<and>
   getnnz truncated = 4"
  by code_simp

text \<open>
  Claim C1.  The product is the accumulation over the diagonals while every offset
  lies inside the strip (\<open>matvec_rank1_in_range\<close>, \<open>matvec_rank2_in_range\<close>), and
  the worked example gives \<open>[4,7,5,7]\<close> (\<open>matvec_example\<close>).  It is not for every
  matrix: the loop body takes the slice bounds as they come.  For the offset 3 on a
  strip of width 2 in a \<open>4 \<times> 4\<close> matrix, \<open>j_start = 3\<close>, \<open>j_end = 2\<close>,
  \<open>i_start = 0\<close> and \<open>i_end = -1\<close>: the input slices are empty and the output
  slice \<^verbatim>\<open>temp[0:-1]\<close> has three rows, so \<^verbatim>\<open>multiply\<close> raises where the
  diagonal should add nothing.  The constructor accepts this matrix and \<^verbatim>\<open>tocoo\<close>
  exports it as the zero matrix.  The offsets 5 and -5 on a full strip raise in the
  same way.
\<close>

theorem matvec_raises_past_strip:
  "dia_matrix_init (FromDataDiags (array2 2 [[5, 6 :: int]]) (array1 [3])) (Some (4, 4))
     = Inr \<lparr>data = array2 2 [[5, 6 :: int]], diags = array1 [3], shape = (4, 4)\<rparr> \<and>
   matvec \<lparr>data = array2 2 [[5, 6 :: int]], diags = array1 [3], shape = (4, 4)\<rparr> (array1 [1, 1, 1, 1])
     = Inl (ValueError ''operands could not be broadcast together'') \<and>
   tocoo \<lparr>data = array2 2 [[5, 6 :: int]], diags = array1 [3], shape = (4, 4)\<rparr>
     = Inr \<lparr>coo_data = [], coo_row = [], coo_col = [], coo_shape = (4, 4)\<rparr> \<and>
   matvec \<lparr>data = array2 4 [[1, 2, 3, 4 :: int]], diags = array1 [5], shape = (4, 4)\<rparr>
       (array1 [1, 1, 1, 1])
     = Inl (ValueError ''operands could not be broadcast together'') \<and>
   matvec \<lparr>data = array2 4 [[1, 2, 3, 4 :: int]], diags = array1 [- 5], shape = (4, 4)\<rparr>
       (array1 [1, 1, 1, 1])
     = Inl (ValueError ''operands could not be broadcast together'')"
  by code_simp

subsection \<open>tocoo\<close>

lemma shift_rows_enumerate:
  "length row = n + length ks \<Longrightarrow>
   shift_rows (enumerate n ks) row =
     Inr (take n row @ map2 (\<lambda>k r. map (\<lambda>v. v - k) r) ks (drop n row))"
proof (induction ks arbitrary: n row)
  case Nil
  then show ?case by simp
next
  case (Cons k ks)
  let ?row = "row[n := map (\<lambda>v. v - k) (row ! n)]"
  have n: "n < length row" using Cons.prems by simp
  have "length ?row = Suc n + length ks" using Cons.prems by simp
  from Cons.IH [OF this]
  have "shift_rows (enumerate (Suc n) ks) ?row =
          Inr (take (Suc n) ?row @ map2 (\<lambda>k r. map (\<lambda>v. v - k) r) ks (drop (Suc n) ?row))" .
  moreover have "take (Suc n) ?row = take n row @ [map (\<lambda>v. v - k) (row ! n)]"
    using n by (simp add: take_Suc_conv_app_nth)
  moreover have "drop (Suc n) ?row = drop (Suc n) row" by simp
  moreover have "drop n row = row ! n # drop (Suc n) row"
    using n by (simp add: Cons_nth_drop_Suc)
  ultimately show ?case using n by simp
qed

lemma shift_rows_replicate:
  "length ks = K \<Longrightarrow>
   shift_rows (enumerate 0 ks) (replicate K base) =
     Inr (map (\<lambda>i. map (\<lambda>v. v - ks ! i) base) [0..<K])"
proof -
  assume l: "length ks = K"
  then have "shift_rows (enumerate 0 ks) (replicate K base) =
     Inr (map2 (\<lambda>k r. map (\<lambda>v. v - k) r) ks (replicate K base))"
    using shift_rows_enumerate [of "replicate K base" 0 ks] by simp
  moreover have "map2 (\<lambda>k r. map (\<lambda>v. v - k) r) ks (replicate K base)
      = map (\<lambda>i. map (\<lambda>v. v - ks ! i) base) [0..<K]"
    using l by (auto intro!: nth_equalityI)
  ultimately show ?thesis by simp
qed

lemma select_index:
  assumes "length r = L"
  shows "map fst (filter snd (zip r (map p [0..<L]))) = map ((!) r) (filter p [0..<L])"
proof -
  have "zip r (map p [0..<L]) = map (\<lambda>c. (r ! c, p c)) [0..<L]"
    using assms by (intro nth_equalityI) auto
  then show ?thesis by (simp add: filter_map comp_def)
qed

lemma mask_select_index:
  assumes "length a = K" and "\<And>i. i < K \<Longrightarrow> length (a ! i) = L"
  shows "mask_select a (map (\<lambda>i. map (P i) [0..<L]) [0..<K]) =
           concat (map (\<lambda>i. map ((!) (a ! i)) (filter (P i) [0..<L])) [0..<K])"
proof -
  have "map2 (\<lambda>r m. map fst (filter snd (zip r m))) a (map (\<lambda>i. map (P i) [0..<L]) [0..<K])
          = map (\<lambda>i. map fst (filter snd (zip (a ! i) (map (P i) [0..<L])))) [0..<K]"
    using assms(1) by (intro nth_equalityI) auto
  also have "\<dots> = map (\<lambda>i. map ((!) (a ! i)) (filter (P i) [0..<L])) [0..<K]"
    using assms(2) by (simp add: select_index)
  finally show ?thesis by (simp add: mask_select_def)
qed

lemma filter_product:
  "filter P (List.product xs ys) =
     concat (map (\<lambda>x. map (Pair x) (filter (\<lambda>y. P (x, y)) ys)) xs)"
  by (induction xs) (simp_all add: filter_map comp_def)

lemma concat_map_index:
  "concat (map (\<lambda>x. map (f x) (filter (\<lambda>y. P (x, y)) ys)) xs) =
     map (\<lambda>xy. f (fst xy) (snd xy)) (filter P (List.product xs ys))"
  by (simp add: filter_product map_concat comp_def)

lemma zip3_map: "zip (map f xs) (zip (map g xs) (map h xs)) = map (\<lambda>x. (f x, g x, h x)) xs"
  by (induction xs) simp_all


lemma concat_live:
  assumes "\<And>i c. i < K \<Longrightarrow> c < L \<Longrightarrow> a ! i ! c = f i c"
  shows "concat (map (\<lambda>i. map ((!) (a ! i)) (filter (P i) [0..<L])) [0..<K]) =
           map (\<lambda>ic. f (fst ic) (snd ic))
             (filter (\<lambda>ic. P (fst ic) (snd ic)) (List.product [0..<K] [0..<L]))"
proof -
  have "map (\<lambda>i. map ((!) (a ! i)) (filter (P i) [0..<L])) [0..<K]
          = map (\<lambda>i. map (f i) (filter (P i) [0..<L])) [0..<K]" (is "?l = ?r")
    using assms by simp
  then have "concat ?l = concat ?r" by (rule arg_cong)
  also have "concat ?r = map (\<lambda>ic. f (fst ic) (snd ic))
             (filter (\<lambda>ic. P (fst ic) (snd ic)) (List.product [0..<K] [0..<L]))"
    using concat_map_index [of f "\<lambda>ic. P (fst ic) (snd ic)" "[0..<L]" "[0..<K]"] by simp
  finally show ?thesis .
qed

lemma tocoo_live_index:
  assumes "dia_ok A"
  shows "tocoo A = Inr
     \<lparr>coo_data = map (\<lambda>ic. data_at A (fst ic) (snd ic)) (live_index A),
      coo_row = map (\<lambda>ic. int (snd ic) - offset A (fst ic)) (live_index A),
      coo_col = map (\<lambda>ic. int (snd ic)) (live_index A),
      coo_shape = shape A\<rparr>"
proof -
  let ?K = "len (diags A)"
  let ?L = "nd_shape (data A) ! 1"
  let ?ks = "nd_flat (diags A)"
  let ?row = "map (\<lambda>i. map (\<lambda>c. int c - ?ks ! i) [0..<?L]) [0..<?K]"
  let ?col = "replicate ?K (map int [0..<?L])"
  let ?msk = "map (\<lambda>i. map (live A i) [0..<?L]) [0..<?K]"
  from assms have wd: "wf_ndarray (data A)" and wg: "wf_ndarray (diags A)"
    and r1: "ndim (diags A) = 1" and r2: "ndim (data A) = 2"
    and rows: "nd_shape (data A) ! 0 = ?K"
    by (simp_all add: dia_ok_def structural_invariants_def)
  have nd: "len (data A) = ?K" using rows by (simp add: len_def)
  have lk: "length ?ks = ?K"
    using wg r1 by (simp add: wf_rank1_len)
  have shift: "shift_rows (enumerate 0 ?ks) ?col = Inr ?row"
    using shift_rows_replicate [OF lk, of "map int [0..<?L]"]
    by (simp add: comp_def)
  have m: "map2 (map2 (\<lambda>r c. r \<ge> 0 \<and> r < int (fst (shape A)) \<and> c < int (snd (shape A))))
             ?row ?col = ?msk"
    by (intro nth_equalityI) (auto simp: live_def offset_def)
  have t: "tocoo A = Inr
     \<lparr>coo_data = mask_select (nd_rows (data A)) ?msk,
      coo_row = mask_select ?row ?msk,
      coo_col = mask_select ?col ?msk,
      coo_shape = shape A\<rparr>"
    unfolding tocoo_def Let_def nd shift using m by simp
  have d: "mask_select (nd_rows (data A)) ?msk
             = map (\<lambda>ic. data_at A (fst ic) (snd ic)) (live_index A)"
  proof -
    have "length (nd_rows (data A)) = ?K" using rows by simp
    moreover have "length (nd_rows (data A) ! i) = ?L" if "i < ?K" for i
      using that wd r2 rows by (simp add: length_nd_rows_nth)
    ultimately have "mask_select (nd_rows (data A)) ?msk =
        concat (map (\<lambda>i. map ((!) (nd_rows (data A) ! i)) (filter (live A i) [0..<?L])) [0..<?K])"
      by (rule mask_select_index)
    also have "\<dots> = map (\<lambda>ic. data_at A (fst ic) (snd ic))
        (filter (\<lambda>ic. live A (fst ic) (snd ic)) (List.product [0..<?K] [0..<?L]))"
      by (rule concat_live) (simp add: data_at_def)
    finally show ?thesis by (simp add: live_index_def)
  qed
  have r: "mask_select ?row ?msk
             = map (\<lambda>ic. int (snd ic) - offset A (fst ic)) (live_index A)"
  proof -
    have "mask_select ?row ?msk =
        concat (map (\<lambda>i. map ((!) (?row ! i)) (filter (live A i) [0..<?L])) [0..<?K])"
      by (rule mask_select_index) simp_all
    also have "\<dots> = map (\<lambda>ic. int (snd ic) - offset A (fst ic))
        (filter (\<lambda>ic. live A (fst ic) (snd ic)) (List.product [0..<?K] [0..<?L]))"
      by (rule concat_live) (simp add: offset_def)
    finally show ?thesis by (simp add: live_index_def)
  qed
  have c: "mask_select ?col ?msk = map (\<lambda>ic. int (snd ic)) (live_index A)"
  proof -
    have "mask_select ?col ?msk =
        concat (map (\<lambda>i. map ((!) (?col ! i)) (filter (live A i) [0..<?L])) [0..<?K])"
      by (rule mask_select_index) simp_all
    also have "\<dots> = map (\<lambda>ic. int (snd ic))
        (filter (\<lambda>ic. live A (fst ic) (snd ic)) (List.product [0..<?K] [0..<?L]))"
      by (rule concat_live) simp
    finally show ?thesis by (simp add: live_index_def)
  qed
  show ?thesis by (simp only: t d r c)
qed


lemma set_live_index:
  "set (live_index A) =
     {(i, c). i < len (diags A) \<and> c < nd_shape (data A) ! 1 \<and> live A i c}"
  by (auto simp: live_index_def)

lemma distinct_live_index: "distinct (live_index A)"
  by (simp add: live_index_def distinct_product)

lemma sum_list_product:
  "(\<Sum>i\<leftarrow>xs. \<Sum>j\<leftarrow>ys. h i j) =
     sum_list (map (\<lambda>ij. h (fst ij) (snd ij)) (List.product xs ys))"
  by (induction xs) (simp_all add: comp_def)

lemma coo_entries_live_index:
  assumes "tocoo A = Inr C" and "dia_ok A"
  shows "coo_entries C =
           map (\<lambda>ic. (int (snd ic) - offset A (fst ic), int (snd ic), data_at A (fst ic) (snd ic)))
             (live_index A)"
  using assms tocoo_live_index [OF assms(2)] by (auto simp: coo_entries_def zip3_map)

lemma positions_inj:
  assumes "dia_ok A"
  shows "inj_on (\<lambda>ic. (int (snd ic) - offset A (fst ic), int (snd ic))) (set (live_index A))"
proof (rule inj_onI)
  fix x y
  assume x: "x \<in> set (live_index A)" and y: "y \<in> set (live_index A)"
    and e: "(int (snd x) - offset A (fst x), int (snd x)) =
            (int (snd y) - offset A (fst y), int (snd y))"
  from assms have d: "distinct (nd_flat (diags A))"
    and l: "len (diags A) = length (nd_flat (diags A))"
    by (simp_all add: dia_ok_def structural_invariants_def wf_rank1_len)
  from x y l have "fst x < length (nd_flat (diags A))" "fst y < length (nd_flat (diags A))"
    by (auto simp: set_live_index)
  moreover from e have "nd_flat (diags A) ! fst x = nd_flat (diags A) ! fst y"
    by (simp add: offset_def)
  ultimately have "fst x = fst y" using d by (simp add: nth_eq_iff_index_eq)
  moreover from e have "snd x = snd y" by simp
  ultimately show "x = y" by (simp add: prod_eq_iff)
qed

lemma coo_todense_eq:
  assumes "tocoo A = Inr C" and "dia_ok A"
  shows "coo_todense C r c = dia_todense A r c"
proof -
  let ?prod = "List.product [0..<len (diags A)] [0..<nd_shape (data A) ! 1]"
  have "coo_todense C r c =
          sum_list (map (\<lambda>ic. if int (snd ic) - offset A (fst ic) = int r \<and> int (snd ic) = int c
                                then data_at A (fst ic) (snd ic) else 0) (live_index A))"
    by (simp add: coo_todense_def coo_entries_live_index [OF assms] comp_def cong: if_cong)
  also have "\<dots> =
          sum_list (map (\<lambda>ic. if live A (fst ic) (snd ic) then
                                 (if int (snd ic) - offset A (fst ic) = int r \<and> int (snd ic) = int c
                                  then data_at A (fst ic) (snd ic) else 0) else 0) ?prod)"
    by (simp add: live_index_def sum_list_map_filter' cong: if_cong)
  also have "\<dots> =
          sum_list (map (\<lambda>ic. if int (snd ic) - offset A (fst ic) = int r \<and> snd ic = c \<and>
                                   r < fst (shape A) \<and> c < snd (shape A)
                                then data_at A (fst ic) (snd ic) else 0) ?prod)"
    by (intro arg_cong [where f = sum_list] map_cong) (auto simp: live_def)
  also have "\<dots> = dia_todense A r c"
    by (simp add: dia_todense_def sum_list_product)
  finally show ?thesis .
qed

text \<open>
  Claim C2.  For every instance, \<^verbatim>\<open>tocoo\<close> returns three lists of one length whose
  triples are exactly the live entries of the element mapping: \<open>(c - k, c)\<close> with
  value \<open>data[i][c]\<close> for each diagonal row \<open>i\<close> with offset \<open>k\<close> and each
  \<open>c < L\<close> with \<open>0 \<le> c - k < rows\<close> and \<open>c < cols\<close>.  No position is exported
  twice, so the dense matrix rebuilt from the export is the dense matrix of the
  diagonal walk.
\<close>

theorem tocoo_exports_live_entries:
  assumes "dia_ok A"
  shows "\<exists>C. tocoo A = Inr C \<and> coo_shape C = shape A \<and>
           length (coo_row C) = length (coo_data C) \<and>
           length (coo_col C) = length (coo_data C) \<and>
           set (coo_entries C) =
             {(int c - offset A i, int c, data_at A i c) | i c.
                i < len (diags A) \<and> c < nd_shape (data A) ! 1 \<and>
                0 \<le> int c - offset A i \<and> int c - offset A i < int (fst (shape A)) \<and>
                c < snd (shape A)} \<and>
           distinct (map (\<lambda>e. (fst e, fst (snd e))) (coo_entries C)) \<and>
           (\<forall>r c. coo_todense C r c = dia_todense A r c)"
proof -
  from tocoo_live_index [OF assms] obtain C where t: "tocoo A = Inr C"
    and s: "coo_shape C = shape A"
    and l: "length (coo_row C) = length (coo_data C)" "length (coo_col C) = length (coo_data C)"
    by simp
  note e = coo_entries_live_index [OF t assms]
  have "set (coo_entries C) =
             {(int c - offset A i, int c, data_at A i c) | i c.
                i < len (diags A) \<and> c < nd_shape (data A) ! 1 \<and>
                0 \<le> int c - offset A i \<and> int c - offset A i < int (fst (shape A)) \<and>
                c < snd (shape A)}"
    unfolding e by (auto simp: set_live_index live_def image_iff)
  moreover have "distinct (map (\<lambda>e. (fst e, fst (snd e))) (coo_entries C))"
    unfolding e using positions_inj [OF assms]
    by (simp add: comp_def distinct_map distinct_live_index)
  ultimately show ?thesis using t s l coo_todense_eq [OF t assms] by blast
qed


theorem tocoo_exports_live_entries_witness:
  "dia_ok example \<and>
   tocoo example = Inr
     \<lparr>coo_data = [1, 2, 3, 4, 1, 2, 3, 3, 4 :: int],
      coo_row = [0, 1, 2, 3, 1, 2, 3, 0, 1],
      coo_col = [0, 1, 2, 3, 0, 1, 2, 2, 3], coo_shape = (4, 4)\<rparr> \<and>
   distinct (map (\<lambda>e. (fst e, fst (snd e))) (coo_entries
     \<lparr>coo_data = [1, 2, 3, 4, 1, 2, 3, 3, 4 :: int],
      coo_row = [0, 1, 2, 3, 1, 2, 3, 0, 1],
      coo_col = [0, 1, 2, 3, 0, 1, 2, 2, 3], coo_shape = (4, 4)\<rparr>)) \<and>
   (\<forall>r c. coo_todense
     \<lparr>coo_data = [1, 2, 3, 4, 1, 2, 3, 3, 4 :: int],
      coo_row = [0, 1, 2, 3, 1, 2, 3, 0, 1],
      coo_col = [0, 1, 2, 3, 0, 1, 2, 2, 3], coo_shape = (4, 4)\<rparr> r c
      = dia_todense example r c)"
proof -
  let ?C = "\<lparr>coo_data = [1, 2, 3, 4, 1, 2, 3, 3, 4 :: int],
      coo_row = [0, 1, 2, 3, 1, 2, 3, 0, 1],
      coo_col = [0, 1, 2, 3, 0, 1, 2, 2, 3], coo_shape = (4, 4)\<rparr>"
  have t: "tocoo example = Inr ?C" by code_simp
  from tocoo_exports_live_entries [OF dia_ok_example] t
  have "distinct (map (\<lambda>e. (fst e, fst (snd e))) (coo_entries ?C))"
    and "\<forall>r c. coo_todense ?C r c = dia_todense example r c"
    by auto
  with dia_ok_example t show ?thesis by blast
qed

subsection \<open>The count against the export\<close>

lemma length_filter_interval:
  "length (filter (\<lambda>c. a \<le> int c \<and> int c < b) [0..<L]) = nat (min b (int L) - max a 0)"
proof (induction L)
  case 0
  then show ?case by simp
next
  case (Suc L)
  then show ?case by (auto simp: min_def max_def)
qed

lemma sum_list_less:
  fixes f g :: "'a \<Rightarrow> int"
  assumes "\<forall>x \<in> set xs. f x \<le> g x" and "\<exists>x \<in> set xs. f x < g x"
  shows "sum_list (map f xs) < sum_list (map g xs)"
  using assms
proof (induction xs)
  case Nil
  then show ?case by simp
next
  case (Cons x xs)
  show ?case
  proof (cases "f x < g x")
    case True
    moreover have "sum_list (map f xs) \<le> sum_list (map g xs)"
      using Cons.prems(1) by (intro sum_list_mono) simp
    ultimately show ?thesis by simp
  next
    case False
    with Cons.prems have "\<exists>x \<in> set xs. f x < g x" and "f x \<le> g x" by auto
    with Cons.IH Cons.prems(1) show ?thesis by simp
  qed
qed

lemma length_live_row:
  "int (length (filter (live A i) [0..<L])) =
     max 0 (min (int (fst (shape A)) + offset A i) (min (int (snd (shape A))) (int L))
            - max 0 (offset A i))"
proof -
  define b where "b = min (int (fst (shape A)) + offset A i) (int (snd (shape A)))"
  have "filter (live A i) [0..<L] = filter (\<lambda>c. offset A i \<le> int c \<and> int c < b) [0..<L]"
    by (intro filter_cong) (auto simp: live_def b_def)
  then have "length (filter (live A i) [0..<L]) = nat (min b (int L) - max (offset A i) 0)"
    by (simp only: length_filter_interval)
  then show ?thesis by (simp add: b_def) linarith
qed

lemma length_live_index:
  "int (length (live_index A)) =
     (\<Sum>i\<leftarrow>[0..<len (diags A)].
        int (length (filter (live A i) [0..<nd_shape (data A) ! 1])))"
proof -
  have "length (live_index A) =
     (\<Sum>i\<leftarrow>[0..<len (diags A)]. length (filter (live A i) [0..<nd_shape (data A) ! 1]))"
    by (simp add: live_index_def filter_product length_concat comp_def)
  then show ?thesis by (simp add: sum_list_of_nat [symmetric] comp_def)
qed

lemma stored_le_ideal:
  assumes "- int (fst (shape A)) \<le> offset A i" and "offset A i \<le> int (snd (shape A))"
  shows "int (length (filter (live A i) [0..<L])) \<le>
           ideal_length (fst (shape A)) (snd (shape A)) (offset A i)"
  using assms unfolding length_live_row ideal_length_def by auto

lemma stored_less_ideal:
  assumes "int L < ideal_length (fst (shape A)) (snd (shape A)) (offset A i)"
  shows "int (length (filter (live A i) [0..<L])) <
           ideal_length (fst (shape A)) (snd (shape A)) (offset A i)"
  using assms unfolding length_live_row ideal_length_def by (auto split: if_splits)

lemma getnnz_ideal_lengths:
  assumes "dia_ok A"
  shows "getnnz A =
     (\<Sum>i\<leftarrow>[0..<len (diags A)]. ideal_length (fst (shape A)) (snd (shape A)) (offset A i))"
proof -
  from assms have "length (nd_flat (diags A)) = len (diags A)"
    by (simp add: dia_ok_def structural_invariants_def wf_rank1_len)
  then have "nd_flat (diags A) = map (offset A) [0..<len (diags A)]"
    by (intro nth_equalityI) (simp_all add: offset_def)
  then have "getnnz A =
     (\<Sum>k\<leftarrow>map (offset A) [0..<len (diags A)].
        if k > 0 then min (int (fst (shape A))) (int (snd (shape A)) - k)
        else min (int (fst (shape A)) + k) (int (snd (shape A))))"
    by (simp only: getnnz_sum_list)
  then show ?thesis by (simp add: ideal_length_def comp_def)
qed

text \<open>With every offset inside the matrix, the count is at least the number of
  exported entries, and more once the strip is shorter than some diagonal.\<close>

lemma getnnz_overstates_in_range:
  assumes ok: "dia_ok A" and t: "tocoo A = Inr C"
    and range: "\<forall>i < len (diags A).
        - int (fst (shape A)) \<le> offset A i \<and> offset A i \<le> int (snd (shape A))"
  shows "int (length (coo_data C)) \<le> getnnz A"
    and "(\<exists>i < len (diags A). int (nd_shape (data A) ! 1) <
            ideal_length (fst (shape A)) (snd (shape A)) (offset A i)) \<Longrightarrow>
         int (length (coo_data C)) < getnnz A"
proof -
  let ?f = "\<lambda>i. int (length (filter (live A i) [0..<nd_shape (data A) ! 1]))"
  let ?g = "\<lambda>i. ideal_length (fst (shape A)) (snd (shape A)) (offset A i)"
  from t tocoo_live_index [OF ok] have "length (coo_data C) = length (live_index A)" by auto
  then have l: "int (length (coo_data C)) = sum_list (map ?f [0..<len (diags A)])"
    by (simp add: length_live_index)
  have le: "\<forall>i \<in> set [0..<len (diags A)]. ?f i \<le> ?g i"
    using range by (auto intro: stored_le_ideal)
  show "int (length (coo_data C)) \<le> getnnz A"
    unfolding l getnnz_ideal_lengths [OF ok] using le by (intro sum_list_mono) simp
  assume "\<exists>i < len (diags A). int (nd_shape (data A) ! 1) < ?g i"
  then have "\<exists>i \<in> set [0..<len (diags A)]. ?f i < ?g i"
    by (auto intro: stored_less_ideal)
  with le show "int (length (coo_data C)) < getnnz A"
    unfolding l getnnz_ideal_lengths [OF ok] by (rule sum_list_less)
qed


text \<open>
  Claim C9.  The count reads the shape and the offsets only
  (\<open>getnnz_ignores_data\<close>), and with every offset inside the matrix it exceeds the
  number of exported entries once the strip is shorter than some diagonal
  (\<open>getnnz_overstates_in_range\<close>).  It does not for every matrix: with the offsets
  \<open>0\<close> and \<open>7\<close> on a \<open>4 \<times> 4\<close> matrix and strips of width 2, the main diagonal has
  ideal length 4 and two stored entries, the export has those two entries, and
  \<^verbatim>\<open>getnnz\<close> is \<open>4 + (-3) = 1\<close>.  The constructor accepts this matrix.
\<close>

theorem getnnz_understates:
  "dia_matrix_init (FromDataDiags (array2 2 [[5, 6 :: int], [0, 0]]) (array1 [0, 7])) (Some (4, 4))
     = Inr \<lparr>data = array2 2 [[5, 6 :: int], [0, 0]], diags = array1 [0, 7], shape = (4, 4)\<rparr> \<and>
   getnnz \<lparr>data = array2 2 [[5, 6 :: int], [0, 0]], diags = array1 [0, 7], shape = (4, 4)\<rparr> = 1 \<and>
   getnnz \<lparr>data = array2 2 [[5, 6 :: int]], diags = array1 [0], shape = (4, 4)\<rparr> = 4 \<and>
   tocoo \<lparr>data = array2 2 [[5, 6 :: int], [0, 0]], diags = array1 [0, 7], shape = (4, 4)\<rparr>
     = Inr \<lparr>coo_data = [5, 6 :: int], coo_row = [0, 1], coo_col = [0, 1], coo_shape = (4, 4)\<rparr>"
  by code_simp

end
